theory Spec2Isabelle
  imports
    Complex_Main
    "HOL-Library.Char_ord"
    "HOL-Library.List_Lexorder"
    "HOL-Library.Product_Lexorder"
begin

section \<open>Billing report pipeline of \<open>main.py\<close>\<close>

text \<open>
  The script downloads a billing export, loads it into a pandas DataFrame, derives the
  \<open>Month\<close> and \<open>Year\<close> columns from \<open>Date\<close> and writes four reports, each the
  sum of \<open>CostInBillingCurrency\<close> per value of one key column.

  The functions of \<open>main.py\<close> are modelled under their own names. The operations of
  pandas, of the \<open>csv\<close> writer and of \<open>os.path\<close> they call are modelled as far as the
  script uses them, with the defaults the script leaves in place.
  \<^item> The DataFrame is modelled column by column, every column carrying its dtype. A
    missing value (\<open>NaN\<close>, \<open>NaT\<close>) is \<open>None\<close>.
  \<^item> Strings are byte strings (UTF-8), whose lexicographic order is the code point order
    Python compares \<open>str\<close> by.
  \<^item> A \<open>float64\<close> cost is modelled by the rational number it stands for and addition
    is exact: the rounding of sums is outside the model.
  \<^item> An exception is a value of the type \<open>error\<close>; a function that can raise returns
    \<open>error + 'a\<close>.
  \<^item> The file system and the network are modelled by the events of a run. What
    \<open>print\<close> writes is not recorded.
\<close>

subsection \<open>Errors\<close>

datatype error =
    ValueError string
  | AssertionError string
  | KeyError string
  | TypeError string
  | AttributeError string
  | DateParseError string
  | TransferError string
  | ParserError string

definition bind_e :: "error + 'a \<Rightarrow> ('a \<Rightarrow> error + 'b) \<Rightarrow> error + 'b" where
  "bind_e r f = (case r of Inl e \<Rightarrow> Inl e | Inr v \<Rightarrow> f v)"

subsection \<open>The DataFrame\<close>

type_synonym date = "nat \<times> nat \<times> nat"
  \<comment> \<open>year, month, day\<close>

type_synonym month_period = "nat \<times> nat"
  \<comment> \<open>year, month: a \<open>Period\<close> of frequency \<open>M\<close>\<close>

datatype column =
    StrCol "string option list"
  | FloatCol "rat option list"
  | DatetimeCol "date option list"
  | PeriodMCol "month_period option list"
  | PeriodYCol "nat option list"

type_synonym frame = "(string \<times> column) list"
  \<comment> \<open>the columns in order, each with its name\<close>

fun col_len :: "column \<Rightarrow> nat" where
  "col_len (StrCol xs) = length xs"
| "col_len (FloatCol xs) = length xs"
| "col_len (DatetimeCol xs) = length xs"
| "col_len (PeriodMCol xs) = length xs"
| "col_len (PeriodYCol xs) = length xs"

fun dtype :: "column \<Rightarrow> string" where
  "dtype (StrCol xs) = ''str''"
| "dtype (FloatCol xs) = ''float''"
| "dtype (DatetimeCol xs) = ''datetime64''"
| "dtype (PeriodMCol xs) = ''period[M]''"
| "dtype (PeriodYCol xs) = ''period[Y]''"

definition BILLING_DETAIL_TYPES :: "(string \<times> string) list" where
  "BILLING_DETAIL_TYPES =
    [(''InvoiceSectionName'', ''str''),
     (''AccountName'', ''str''),
     (''AccountOwnerId'', ''str''),
     (''SubscriptionId'', ''str''),
     (''SubscriptionName'', ''str''),
     (''ResourceGroup'', ''str''),
     (''ResourceLocation'', ''str''),
     (''Date'', ''str''),
     (''ProductName'', ''str''),
     (''MeterCategory'', ''str''),
     (''MeterSubCategory'', ''str''),
     (''MeterId'', ''str''),
     (''MeterName'', ''str''),
     (''MeterRegion'', ''str''),
     (''UnitOfMeasure'', ''str''),
     (''Quantity'', ''str''),
     (''EffectivePrice'', ''str''),
     (''CostInBillingCurrency'', ''float''),
     (''CostCenter'', ''str''),
     (''ConsumedService'', ''str''),
     (''ResourceId'', ''str''),
     (''Tags'', ''str''),
     (''OfferId'', ''str''),
     (''AdditionalInfo'', ''str''),
     (''ServiceInfo1'', ''str''),
     (''ServiceInfo2'', ''str''),
     (''ResourceName'', ''str''),
     (''ReservationId'', ''str''),
     (''ReservationName'', ''str''),
     (''UnitPrice'', ''str''),
     (''ProductOrderId'', ''str''),
     (''ProductOrderName'', ''str''),
     (''Term'', ''str''),
     (''PublisherType'', ''str''),
     (''PublisherName'', ''str''),
     (''ChargeType'', ''str''),
     (''Frequency'', ''str''),
     (''PricingModel'', ''str''),
     (''AvailabilityZone'', ''str''),
     (''BillingAccountId'', ''str''),
     (''BillingAccountName'', ''str''),
     (''BillingCurrencyCode'', ''str''),
     (''BillingPeriodStartDate'', ''str''),
     (''BillingPeriodEndDate'', ''str''),
     (''BillingProfileId'', ''str''),
     (''BillingProfileName'', ''str''),
     (''InvoiceSectionId'', ''str''),
     (''IsAzureCreditEligible'', ''str''),
     (''PartNumber'', ''str''),
     (''PayGPrice'', ''str''),
     (''PlanName'', ''str''),
     (''ServiceFamily'', ''str''),
     (''CostAllocationRuleName'', ''str'')]"

text \<open>
  What \<open>pd.read_csv(..., header=0, dtype=BILLING_DETAIL_TYPES)\<close> returns: the column
  names are distinct, all columns have the same number of rows, and a column named in
  \<open>BILLING_DETAIL_TYPES\<close> has the dtype declared there. Other columns are tolerated
  with whatever dtype was inferred.
\<close>

definition same_len :: "frame \<Rightarrow> bool" where
  "same_len df = list_all (\<lambda>(n, c). col_len c = col_len (snd (hd df))) df"

definition dtypes_ok :: "frame \<Rightarrow> bool" where
  "dtypes_ok df =
     list_all (\<lambda>(n, c). case map_of BILLING_DETAIL_TYPES n of
                           None \<Rightarrow> True
                         | Some t \<Rightarrow> dtype c = t) df"

definition billing_table :: "frame \<Rightarrow> bool" where
  "billing_table df = (distinct (map fst df) \<and> same_len df \<and> dtypes_ok df)"

text \<open>\<open>df[name]\<close>: the column, or \<open>KeyError\<close>.\<close>

definition get_col :: "frame \<Rightarrow> string \<Rightarrow> error + column" where
  "get_col df name = (case map_of df name of None \<Rightarrow> Inl (KeyError name) | Some c \<Rightarrow> Inr c)"

text \<open>\<open>df[name] = col\<close>: replaces the column in place, or appends a new last column.\<close>

fun set_col :: "string \<Rightarrow> column \<Rightarrow> frame \<Rightarrow> frame" where
  "set_col name col [] = [(name, col)]"
| "set_col name col ((n, c) # df) =
     (if n = name then (n, col) # df else (n, c) # set_col name col df)"

text \<open>The values of a column that are present, in row order.\<close>

fun dropna :: "'a option list \<Rightarrow> 'a list" where
  "dropna [] = []"
| "dropna (None # xs) = dropna xs"
| "dropna (Some x # xs) = x # dropna xs"

text \<open>\<open>df[mask]\<close>: the rows at which the mask holds.\<close>

definition take_mask :: "bool list \<Rightarrow> 'a list \<Rightarrow> 'a list" where
  "take_mask keep xs = map snd (filter fst (zip keep xs))"

fun mask_col :: "bool list \<Rightarrow> column \<Rightarrow> column" where
  "mask_col keep (StrCol xs) = StrCol (take_mask keep xs)"
| "mask_col keep (FloatCol xs) = FloatCol (take_mask keep xs)"
| "mask_col keep (DatetimeCol xs) = DatetimeCol (take_mask keep xs)"
| "mask_col keep (PeriodMCol xs) = PeriodMCol (take_mask keep xs)"
| "mask_col keep (PeriodYCol xs) = PeriodYCol (take_mask keep xs)"

definition mask_rows :: "bool list \<Rightarrow> frame \<Rightarrow> frame" where
  "mask_rows keep df = map (\<lambda>(n, c). (n, mask_col keep c)) df"

text \<open>\<open>df[name].notna()\<close>\<close>

definition isna :: "'a option \<Rightarrow> bool" where
  "isna x = (x = None)"

fun notna :: "column \<Rightarrow> bool list" where
  "notna (StrCol xs) = map (\<lambda>x. \<not> isna x) xs"
| "notna (FloatCol xs) = map (\<lambda>x. \<not> isna x) xs"
| "notna (DatetimeCol xs) = map (\<lambda>x. \<not> isna x) xs"
| "notna (PeriodMCol xs) = map (\<lambda>x. \<not> isna x) xs"
| "notna (PeriodYCol xs) = map (\<lambda>x. \<not> isna x) xs"

text \<open>\<open>df[name].sum()\<close> of a float column: missing values are skipped.\<close>

definition col_sum :: "frame \<Rightarrow> string \<Rightarrow> error + rat" where
  "col_sum df name =
     bind_e (get_col df name)
       (\<lambda>c. case c of FloatCol xs \<Rightarrow> Inr (sum_list (dropna xs))
                     | _ \<Rightarrow> Inl (TypeError name))"

subsection \<open>Grouping and summing\<close>

text \<open>
  \<open>df.groupby(key)\<close> with its defaults \<open>sort=True\<close> and \<open>dropna=True\<close>: the keys are
  factorised (the distinct values that are present), the distinct keys are sorted, and the
  aggregation \<open>sum\<close> adds, for each key, the values of its rows that are present.
\<close>

definition group_keys :: "('k::linorder) option list \<Rightarrow> 'k list" where
  "group_keys ks = sort (remdups (dropna ks))"

definition group_total :: "'k \<Rightarrow> 'k option list \<Rightarrow> rat option list \<Rightarrow> rat" where
  "group_total k ks cs = sum_list (dropna (map snd (filter (\<lambda>(k', c). k' = Some k) (zip ks cs))))"

definition group_sum :: "('k::linorder) option list \<Rightarrow> rat option list \<Rightarrow> ('k \<times> rat) list" where
  "group_sum ks cs = map (\<lambda>k. (k, group_total k ks cs)) (group_keys ks)"

record grouped =
  by_name :: string
  by_col :: column
  obj :: frame

definition groupby :: "frame \<Rightarrow> string \<Rightarrow> error + grouped" where
  "groupby df key =
     bind_e (get_col df key) (\<lambda>c. Inr \<lparr>by_name = key, by_col = c, obj = df\<rparr>)"

text \<open>
  \<open>.agg({name: "sum"})\<close>: the result is indexed by the group keys and has the one
  column \<open>name\<close>. The pipeline only sums the \<open>float\<close> column
  \<open>CostInBillingCurrency\<close>; summing a column of another dtype is not modelled and
  is a \<open>TypeError\<close> here.
\<close>

fun sum_by :: "column \<Rightarrow> rat option list \<Rightarrow> column \<times> column" where
  "sum_by (StrCol ks) cs =
     (let g = group_sum ks cs in (StrCol (map (Some \<circ> fst) g), FloatCol (map (Some \<circ> snd) g)))"
| "sum_by (FloatCol ks) cs =
     (let g = group_sum ks cs in (FloatCol (map (Some \<circ> fst) g), FloatCol (map (Some \<circ> snd) g)))"
| "sum_by (DatetimeCol ks) cs =
     (let g = group_sum ks cs in (DatetimeCol (map (Some \<circ> fst) g), FloatCol (map (Some \<circ> snd) g)))"
| "sum_by (PeriodMCol ks) cs =
     (let g = group_sum ks cs in (PeriodMCol (map (Some \<circ> fst) g), FloatCol (map (Some \<circ> snd) g)))"
| "sum_by (PeriodYCol ks) cs =
     (let g = group_sum ks cs in (PeriodYCol (map (Some \<circ> fst) g), FloatCol (map (Some \<circ> snd) g)))"

definition agg_sum :: "grouped \<Rightarrow> string \<Rightarrow> error + (string \<times> column) \<times> frame" where
  "agg_sum g name =
     bind_e (get_col (obj g) name)
       (\<lambda>c. case c of
               FloatCol cs \<Rightarrow>
                 (case sum_by (by_col g) cs of
                    (labels, totals) \<Rightarrow> Inr ((by_name g, labels), [(name, totals)]))
             | _ \<Rightarrow> Inl (TypeError name))"

text \<open>
  \<open>.reset_index()\<close>: the index becomes the first column; it is a \<open>ValueError\<close> when a
  column of that name is already there.
\<close>

definition reset_index :: "(string \<times> column) \<times> frame \<Rightarrow> error + frame" where
  "reset_index r =
     (case r of
        ((name, labels), cols) \<Rightarrow>
          if name \<in> set (map fst cols)
          then Inl (ValueError (''cannot insert '' @ name @ '', already exists''))
          else Inr ((name, labels) # cols))"

subsection \<open>Writing CSV\<close>

definition digit :: "nat \<Rightarrow> char" where
  "digit d = char_of (48 + d)"

fun nat_str :: "nat \<Rightarrow> string" where
  "nat_str n = (if n < 10 then [digit n] else nat_str (n div 10) @ [digit (n mod 10)])"

declare nat_str.simps [simp del]

definition zfill :: "nat \<Rightarrow> string \<Rightarrow> string" where
  "zfill w s = replicate (w - length s) (CHR ''0'') @ s"

text \<open>
  The text of a \<open>float64\<close> as \<open>to_csv\<close> writes it (Python's \<open>repr\<close>): always with a
  decimal point, so \<open>15.0\<close> for the number fifteen. The model writes the decimal expansion
  of the rational, at most 17 digits after the point; it is \<open>repr\<close> for the values that
  \<open>repr\<close> writes in positional notation (magnitude from \<open>1e-4\<close> up to \<open>1e16\<close>) and
  whose shortest round-trip text is their exact decimal expansion. The exponent form that
  \<open>repr\<close> uses outside this range and the rounding of a \<open>float64\<close> sum are not
  modelled.
\<close>

fun frac_digits :: "nat \<Rightarrow> rat \<Rightarrow> string" where
  "frac_digits 0 r = []"
| "frac_digits (Suc n) r =
     (let t = r * 10; d = nat \<lfloor>t\<rfloor>
      in digit d # (if t = of_nat d then [] else frac_digits n (t - of_nat d)))"

definition float_str :: "rat \<Rightarrow> string" where
  "float_str q =
     (if q < 0 then ''-'' else []) @ nat_str (nat \<lfloor>\<bar>q\<bar>\<rfloor>) @ ''.'' @
     frac_digits 17 (\<bar>q\<bar> - of_int \<lfloor>\<bar>q\<bar>\<rfloor>)"

definition date_str :: "date \<Rightarrow> string" where
  "date_str d =
     (case d of (y, m, dd) \<Rightarrow>
        zfill 4 (nat_str y) @ ''-'' @ zfill 2 (nat_str m) @ ''-'' @ zfill 2 (nat_str dd))"

definition month_str :: "month_period \<Rightarrow> string" where
  "month_str p = (case p of (y, m) \<Rightarrow> zfill 4 (nat_str y) @ ''-'' @ zfill 2 (nat_str m))"

definition year_str :: "nat \<Rightarrow> string" where
  "year_str y = zfill 4 (nat_str y)"

text \<open>A missing value is written as the empty field (\<open>na_rep=''\<close>).\<close>

definition na_or :: "('a \<Rightarrow> string) \<Rightarrow> 'a option \<Rightarrow> string" where
  "na_or f x = (case x of None \<Rightarrow> [] | Some v \<Rightarrow> f v)"

fun col_strs :: "column \<Rightarrow> string list" where
  "col_strs (StrCol xs) = map (na_or id) xs"
| "col_strs (FloatCol xs) = map (na_or float_str) xs"
| "col_strs (DatetimeCol xs) = map (na_or date_str) xs"
| "col_strs (PeriodMCol xs) = map (na_or month_str) xs"
| "col_strs (PeriodYCol xs) = map (na_or year_str) xs"

text \<open>
  The \<open>csv\<close> writer with \<open>QUOTE_MINIMAL\<close>: a field holding the delimiter, the quote
  character or a character of the line terminator is put in double quotes, its quote
  characters doubled. The line terminator is \<open>os.linesep\<close>, here the POSIX line feed,
  so a carriage return alone does not put a field in quotes. (CPython releases that quote
  every carriage return write such a field in quotes; the records and the line feeds of
  the file are the same.)
\<close>

definition special :: "char \<Rightarrow> bool" where
  "special c = (c = CHR '','' \<or> c = CHR 0x22 \<or> c = CHR 0x0A)"

definition csv_field :: "string \<Rightarrow> string" where
  "csv_field s =
     (if list_ex special s
      then [CHR 0x22] @ concat (map (\<lambda>c. if c = CHR 0x22 then [c, c] else [c]) s) @ [CHR 0x22]
      else s)"

fun join :: "string \<Rightarrow> string list \<Rightarrow> string" where
  "join sep [] = []"
| "join sep [x] = x"
| "join sep (x # y # ys) = x @ sep @ join sep (y # ys)"

definition csv_line :: "string list \<Rightarrow> string" where
  "csv_line fs = join '','' (map csv_field fs) @ [CHR 0x0A]"

text \<open>The rows of a table given by its columns.\<close>

fun rows_of :: "'a list list \<Rightarrow> 'a list list" where
  "rows_of [] = []"
| "rows_of [c] = map (\<lambda>x. [x]) c"
| "rows_of (c # d # cs) = map2 (#) c (rows_of (d # cs))"

text \<open>
  The records \<open>df.to_csv(path, index=index)\<close> writes: the header, then one record per
  row; with \<open>index=True\<close> each record starts with the row label, a number from 0 after
  \<open>reset_index\<close>, under an empty header.
\<close>

definition csv_records :: "frame \<Rightarrow> bool \<Rightarrow> string list list" where
  "csv_records df index =
     (let body = rows_of (map (col_strs \<circ> snd) df)
      in if index
         then ([] # map fst df) # map2 (#) (map nat_str [0..<length body]) body
         else map fst df # body)"

definition to_csv :: "frame \<Rightarrow> bool \<Rightarrow> string" where
  "to_csv df index = concat (map csv_line (csv_records df index))"

text \<open>\<open>os.path.join\<close> of two components (POSIX).\<close>

definition os_path_join :: "string \<Rightarrow> string \<Rightarrow> string" where
  "os_path_join a b =
     (if b \<noteq> [] \<and> hd b = CHR ''/'' then b
      else if a = [] \<or> last a = CHR ''/'' then a @ b
      else a @ ''/'' @ b)"

subsection \<open>The report generators\<close>

text \<open>
  Each generator returns the file it writes, as the path and the content, or the error
  raised before anything is written.
\<close>

definition cost_by_sub :: "frame \<Rightarrow> string \<Rightarrow> string \<Rightarrow> error + string \<times> string" where
  "cost_by_sub df dest_dir file_name =
     (let file_path = os_path_join dest_dir file_name
      in bind_e (bind_e (bind_e (groupby df ''SubscriptionName'')
                   (\<lambda>g. agg_sum g ''CostInBillingCurrency''))
                   reset_index)
           (\<lambda>agg_df. Inr (file_path, to_csv agg_df False)))"

definition cost_by_meter_cat :: "frame \<Rightarrow> string \<Rightarrow> string \<Rightarrow> error + string \<times> string" where
  "cost_by_meter_cat df dest_dir file_name =
     (let file_path = os_path_join dest_dir file_name
      in bind_e (bind_e (bind_e (groupby df ''MeterCategory'')
                   (\<lambda>g. agg_sum g ''CostInBillingCurrency''))
                   reset_index)
           (\<lambda>agg_df. Inr (file_path, to_csv agg_df False)))"

definition cost_by_account :: "frame \<Rightarrow> string \<Rightarrow> string \<Rightarrow> error + string \<times> string" where
  "cost_by_account df dest_dir file_name =
     (let file_path = os_path_join dest_dir file_name
      in bind_e (bind_e (bind_e (groupby df ''AccountName'')
                   (\<lambda>g. agg_sum g ''CostInBillingCurrency''))
                   reset_index)
           (\<lambda>agg_df. Inr (file_path, to_csv agg_df False)))"

definition cost_by_month :: "frame \<Rightarrow> string \<Rightarrow> string \<Rightarrow> error + string \<times> string" where
  "cost_by_month df dest_dir file_name =
     (let file_path = os_path_join dest_dir file_name
      in bind_e (bind_e (bind_e (groupby df ''Month'')
                   (\<lambda>g. agg_sum g ''CostInBillingCurrency''))
                   reset_index)
           (\<lambda>agg_df. Inr (file_path, to_csv agg_df False)))"

subsection \<open>The temporal columns\<close>

text \<open>
  \<open>pd.to_datetime\<close> of a column of strings. How pandas reads one date string is a
  parameter \<open>parse\<close> of the model (\<open>None\<close>: the string is no date); a missing string
  is the missing date \<open>NaT\<close>, and the first string that is no date raises.
\<close>

fun parse_all :: "(string \<Rightarrow> date option) \<Rightarrow> string option list \<Rightarrow> error + date option list" where
  "parse_all parse [] = Inr []"
| "parse_all parse (None # xs) = bind_e (parse_all parse xs) (\<lambda>ds. Inr (None # ds))"
| "parse_all parse (Some s # xs) =
     (case parse s of
        None \<Rightarrow> Inl (DateParseError s)
      | Some d \<Rightarrow> bind_e (parse_all parse xs) (\<lambda>ds. Inr (Some d # ds)))"

definition to_datetime :: "(string \<Rightarrow> date option) \<Rightarrow> column \<Rightarrow> error + column" where
  "to_datetime parse c =
     (case c of
        StrCol xs \<Rightarrow> bind_e (parse_all parse xs) (\<lambda>ds. Inr (DatetimeCol ds))
      | DatetimeCol ds \<Rightarrow> Inr (DatetimeCol ds)
      | _ \<Rightarrow> Inl (TypeError ''to_datetime''))"

text \<open>\<open>.dt.to_period("M")\<close> and \<open>.dt.to_period("Y")\<close>\<close>

definition month_of :: "date \<Rightarrow> month_period" where
  "month_of d = (case d of (y, m, dd) \<Rightarrow> (y, m))"

definition year_of :: "date \<Rightarrow> nat" where
  "year_of d = (case d of (y, m, dd) \<Rightarrow> y)"

definition dt_to_period_M :: "column \<Rightarrow> error + column" where
  "dt_to_period_M c =
     (case c of
        DatetimeCol ds \<Rightarrow> Inr (PeriodMCol (map (map_option month_of) ds))
      | _ \<Rightarrow> Inl (AttributeError ''Can only use .dt accessor with datetimelike values''))"

definition dt_to_period_Y :: "column \<Rightarrow> error + column" where
  "dt_to_period_Y c =
     (case c of
        DatetimeCol ds \<Rightarrow> Inr (PeriodYCol (map (map_option year_of) ds))
      | _ \<Rightarrow> Inl (AttributeError ''Can only use .dt accessor with datetimelike values''))"

text \<open>The three assignments of \<open>main\<close> under \<open># Add temporal columns\<close>.\<close>

definition add_temporal_columns :: "(string \<Rightarrow> date option) \<Rightarrow> frame \<Rightarrow> error + frame" where
  "add_temporal_columns parse df =
     bind_e (bind_e (get_col df ''Date'') (to_datetime parse))
       (\<lambda>dates.
          let df1 = set_col ''Date'' dates df
          in bind_e (bind_e (get_col df1 ''Date'') dt_to_period_M)
               (\<lambda>months.
                  let df2 = set_col ''Month'' months df1
                  in bind_e (bind_e (get_col df2 ''Date'') dt_to_period_Y)
                       (\<lambda>years. Inr (set_col ''Year'' years df2))))"

text \<open>
  The dates of the examples are ISO dates \<open>YYYY-MM-DD\<close>, which \<open>pd.to_datetime\<close>
  reads as that day of the calendar.
\<close>

definition is_digit :: "char \<Rightarrow> bool" where
  "is_digit c = (48 \<le> (of_char c :: nat) \<and> (of_char c :: nat) \<le> 57)"

fun digits_val :: "nat \<Rightarrow> string \<Rightarrow> nat" where
  "digits_val acc [] = acc"
| "digits_val acc (c # cs) = digits_val (10 * acc + ((of_char c :: nat) - 48)) cs"

definition leap_year :: "nat \<Rightarrow> bool" where
  "leap_year y = (y mod 4 = 0 \<and> (y mod 100 \<noteq> 0 \<or> y mod 400 = 0))"

definition days_in_month :: "nat \<Rightarrow> nat \<Rightarrow> nat" where
  "days_in_month y m =
     (if m = 2 then (if leap_year y then 29 else 28)
      else if m = 4 \<or> m = 6 \<or> m = 9 \<or> m = 11 then 30
      else 31)"

definition parse_iso8601 :: "string \<Rightarrow> date option" where
  "parse_iso8601 s =
     (if length s = 10 \<and> s ! 4 = CHR ''-'' \<and> s ! 7 = CHR ''-'' \<and>
         list_all is_digit (take 4 s) \<and> list_all is_digit (take 2 (drop 5 s)) \<and>
         list_all is_digit (drop 8 s)
      then
        (let y = digits_val 0 (take 4 s);
             m = digits_val 0 (take 2 (drop 5 s));
             d = digits_val 0 (drop 8 s)
         in if 1 \<le> m \<and> m \<le> 12 \<and> 1 \<le> d \<and> d \<le> days_in_month y m
            then Some (y, m, d) else None)
      else None)"

subsection \<open>The run\<close>

text \<open>
  What a run does to the world outside is recorded as a list of events. Whether the blob
  client accepts a URL, the blob store, the CSV parser of \<open>pd.read_csv\<close> and the date
  parser are given by the world.
  Creating a directory is taken to succeed.
\<close>

datatype event =
    MakeDirs string
  | OpenWrite string
  | Download string
  | Write string string
  | ReadFile string

record world =
  from_blob_url :: "string \<Rightarrow> error option"
  download_blob :: "string \<Rightarrow> error + string"
  read_csv :: "string \<Rightarrow> error + frame"
  parse_date :: "string \<Rightarrow> date option"

text \<open>
  \<open>load_csv_from_azure_blob\<close> first makes the client with \<open>BlobClient.from_blob_url\<close>,
  which raises on a URL it cannot read, before anything is opened. Then it opens the
  destination file for writing and downloads; a failed download leaves the events up to
  it and raises.
\<close>

definition load_csv_from_azure_blob :: "world \<Rightarrow> string \<Rightarrow> string \<Rightarrow> event list \<times> (error + string)" where
  "load_csv_from_azure_blob w blob_url dest_file =
     (case from_blob_url w blob_url of
        Some e \<Rightarrow> ([], Inl e)
      | None \<Rightarrow>
          (case download_blob w blob_url of
             Inl e \<Rightarrow> ([OpenWrite dest_file, Download blob_url], Inl e)
           | Inr data \<Rightarrow>
               ([OpenWrite dest_file, Download blob_url, Write dest_file data], Inr data)))"

text \<open>
  The reports are awaited one after the other: each writes its file, and the first that
  raises ends the run.
\<close>

fun run_reports :: "(error + string \<times> string) list \<Rightarrow> event list \<times> error option" where
  "run_reports [] = ([], None)"
| "run_reports (Inl e # rs) = ([], Some e)"
| "run_reports (Inr (p, c) # rs) = (case run_reports rs of (ev, r) \<Rightarrow> (Write p c # ev, r))"

text \<open>
  \<open>main(source, out_dir)\<close>; \<open>timestamp\<close> is the text of \<open>datetime.now()\<close> in the
  format \<open>%Y%m%dT%H%M%S\<close>. The result is the events of the run and the error that
  ended it, if any.
\<close>

definition main :: "world \<Rightarrow> string \<Rightarrow> string \<Rightarrow> string \<Rightarrow> event list \<times> error option" where
  "main w timestamp source out_dir =
     (if \<not> 0 < length source then ([], Some (AssertionError ''Source is required.''))
      else
        let report_dir = os_path_join out_dir timestamp;
            download_dir = os_path_join out_dir ''raw'';
            billing_file = os_path_join download_dir (timestamp @ ''.billing.csv'');
            dirs = [MakeDirs out_dir, MakeDirs report_dir, MakeDirs download_dir]
        in case load_csv_from_azure_blob w source billing_file of
             (ev, Inl e) \<Rightarrow> (dirs @ ev, Some e)
           | (ev, Inr data) \<Rightarrow>
               (case read_csv w data of
                  Inl e \<Rightarrow> (dirs @ ev @ [ReadFile billing_file], Some e)
                | Inr df0 \<Rightarrow>
                    (case add_temporal_columns (parse_date w) df0 of
                       Inl e \<Rightarrow> (dirs @ ev @ [ReadFile billing_file], Some e)
                     | Inr df \<Rightarrow>
                         (case run_reports
                                 [cost_by_sub df report_dir ''cost_by_subscription.csv'',
                                  cost_by_meter_cat df report_dir ''cost_by_meter_cat.csv'',
                                  cost_by_account df report_dir ''cost_by_account.csv'',
                                  cost_by_month df report_dir ''cost_by_month.csv''] of
                            (wr, r) \<Rightarrow> (dirs @ ev @ [ReadFile billing_file] @ wr, r)))))"

text \<open>
  The script body under \<open>if __name__ == "__main__"\<close>: the parsed arguments, the
  environment, the two checks, then \<open>main\<close>. Python's \<open>a or b\<close> is \<open>a\<close> when \<open>a\<close>
  is truthy (here: a string that is not empty) and \<open>b\<close> otherwise.
\<close>

record namespace =
  source :: "string option"
  out :: "string option"

definition truthy :: "string option \<Rightarrow> bool" where
  "truthy v = (case v of None \<Rightarrow> False | Some s \<Rightarrow> s \<noteq> [])"

definition py_or :: "string option \<Rightarrow> string option \<Rightarrow> string option" where
  "py_or a b = (if truthy a then a else b)"

definition script :: "world \<Rightarrow> string \<Rightarrow> namespace \<Rightarrow> (string \<rightharpoonup> string) \<Rightarrow> event list \<times> error option" where
  "script w timestamp args environ =
     (let STORAGE_URL = py_or (source args) (environ ''STORAGE_URL'');
          OUT_FOLDER = py_or (out args) (environ ''OUT_FOLDER'')
      in case STORAGE_URL of
           None \<Rightarrow> ([], Some (ValueError ''Source is required. Have you set the STORAGE_URL env variable?''))
         | Some src \<Rightarrow>
             if src = []
             then ([], Some (ValueError ''Source is required. Have you set the STORAGE_URL env variable?''))
             else
               (case OUT_FOLDER of
                  None \<Rightarrow> ([], Some (ValueError ''Out is required. Have you set the OUT_FOLDER env variable?''))
                | Some dir \<Rightarrow>
                    if dir = []
                    then ([], Some (ValueError ''Out is required. Have you set the OUT_FOLDER env variable?''))
                    else main w timestamp src dir))"

section \<open>Vocabulary of the properties\<close>

text \<open>
  The definitions below name what the properties speak about: the table a generator
  aggregates, the totals and the lines of a report, and the example tables the
  properties are evaluated on.
\<close>

text \<open>The amount a cost cell adds to a sum: a missing cost adds nothing.\<close>

definition cost_of :: "rat option \<Rightarrow> rat" where
  "cost_of c = (case c of None \<Rightarrow> 0 | Some v \<Rightarrow> v)"

text \<open>The value of \<open>agg_df\<close> in a generator whose key column is \<open>key\<close>.\<close>

definition report_frame :: "frame \<Rightarrow> string \<Rightarrow> error + frame" where
  "report_frame df key =
     bind_e (bind_e (groupby df key) (\<lambda>g. agg_sum g ''CostInBillingCurrency'')) reset_index"

text \<open>The number of lines of a text, counted by its line feeds.\<close>

definition line_count :: "string \<Rightarrow> nat" where
  "line_count s = length (filter (\<lambda>c. c = CHR 0x0A) s)"

text \<open>\<open>Series.nunique()\<close>: the number of distinct values of a column that are present.\<close>

fun nunique :: "column \<Rightarrow> nat" where
  "nunique (StrCol xs) = card (set (dropna xs))"
| "nunique (FloatCol xs) = card (set (dropna xs))"
| "nunique (DatetimeCol xs) = card (set (dropna xs))"
| "nunique (PeriodMCol xs) = card (set (dropna xs))"
| "nunique (PeriodYCol xs) = card (set (dropna xs))"

text \<open>The distinct values of a column that are present, in ascending order.\<close>

fun unique_sorted :: "column \<Rightarrow> column" where
  "unique_sorted (StrCol xs) = StrCol (map Some (sorted_list_of_set (set (dropna xs))))"
| "unique_sorted (FloatCol xs) = FloatCol (map Some (sorted_list_of_set (set (dropna xs))))"
| "unique_sorted (DatetimeCol xs) = DatetimeCol (map Some (sorted_list_of_set (set (dropna xs))))"
| "unique_sorted (PeriodMCol xs) = PeriodMCol (map Some (sorted_list_of_set (set (dropna xs))))"
| "unique_sorted (PeriodYCol xs) = PeriodYCol (map Some (sorted_list_of_set (set (dropna xs))))"

text \<open>The contents a run has written, in the order of the writes.\<close>

definition contents :: "event list \<Rightarrow> string list" where
  "contents ev = concat (map (\<lambda>e. case e of Write p c \<Rightarrow> [c] | _ \<Rightarrow> []) ev)"

text \<open>What a generator writes, without the path.\<close>

definition content_of :: "error + string \<times> string \<Rightarrow> error + string" where
  "content_of r = (case r of Inl e \<Rightarrow> Inl e | Inr (p, c) \<Rightarrow> Inr c)"

text \<open>The sum of the cost column of the report on \<open>key\<close>.\<close>

definition report_total :: "frame \<Rightarrow> string \<Rightarrow> error + rat" where
  "report_total df key =
     bind_e (report_frame df key) (\<lambda>a. col_sum a ''CostInBillingCurrency'')"

text \<open>The characters of the numbers, dates and periods as they are written.\<close>

definition safe_char :: "char \<Rightarrow> bool" where
  "safe_char c = (is_digit c \<or> c = CHR ''-'' \<or> c = CHR ''.'')"

text \<open>The CSV text of a report from its key labels and its totals, one record per row.\<close>

definition report_text :: "string \<Rightarrow> column \<Rightarrow> column \<Rightarrow> string" where
  "report_text key labels totals =
     concat (map csv_line
       ([key, ''CostInBillingCurrency''] #
        map2 (\<lambda>k v. [k, v]) (col_strs labels) (col_strs totals)))"

text \<open>The four generators, each with its key column.\<close>

definition generators :: "(string \<times> (frame \<Rightarrow> string \<Rightarrow> string \<Rightarrow> error + string \<times> string)) list" where
  "generators =
     [(''SubscriptionName'', cost_by_sub),
      (''MeterCategory'', cost_by_meter_cat),
      (''AccountName'', cost_by_account),
      (''Month'', cost_by_month)]"

text \<open>The column is in the table and none of its values is missing.\<close>

definition complete :: "frame \<Rightarrow> string \<Rightarrow> bool" where
  "complete df name = (case get_col df name of Inl e \<Rightarrow> False | Inr c \<Rightarrow> list_all id (notna c))"

text \<open>The table \<open>main\<close> gets from \<open>missing_account_example\<close>.\<close>

definition missing_account_derived :: frame where
  "missing_account_derived =
     [(''AccountName'', StrCol [Some ''Contoso'', None, Some ''Fabrikam'']),
      (''SubscriptionName'', StrCol [Some ''B'', Some ''A'', Some ''A'']),
      (''Date'', DatetimeCol [Some (2024, 2, 1), Some (2024, 1, 15), Some (2024, 1, 1)]),
      (''MeterCategory'', StrCol [Some ''Storage'', Some ''Compute'', Some ''Storage'']),
      (''CostInBillingCurrency'', FloatCol [Some 3, Some 5, Some 10]),
      (''Month'', PeriodMCol [Some (2024, 2), Some (2024, 1), Some (2024, 1)]),
      (''Year'', PeriodYCol [Some 2024, Some 2024, Some 2024])]"

text \<open>A path component that does not start at the root.\<close>

definition relative :: "string \<Rightarrow> bool" where
  "relative b = (b = [] \<or> hd b \<noteq> CHR ''/'')"

text \<open>The number of line feeds inside the values of a column, as they are written.\<close>

definition breaks :: "column \<Rightarrow> nat" where
  "breaks c = sum_list (map line_count (col_strs c))"

text \<open>The table \<open>main\<close> gets from \<open>line_break_example\<close>.\<close>

definition line_break_derived :: frame where
  "line_break_derived =
     [(''SubscriptionName'', StrCol [Some ''A\<newline>B'']),
      (''Date'', DatetimeCol [Some (2024, 1, 1)]),
      (''CostInBillingCurrency'', FloatCol [Some 1]),
      (''Month'', PeriodMCol [Some (2024, 1)]),
      (''Year'', PeriodYCol [Some 2024])]"

subsection \<open>Example tables\<close>

text \<open>A billing table of three rows in which every key is present.\<close>

definition billing_example :: frame where
  "billing_example =
     [(''AccountName'', StrCol [Some ''Contoso'', Some ''Contoso'', Some ''Fabrikam'']),
      (''SubscriptionName'', StrCol [Some ''B'', Some ''A'', Some ''A'']),
      (''Date'', StrCol [Some ''2024-02-01'', Some ''2024-01-15'', Some ''2024-01-01'']),
      (''MeterCategory'', StrCol [Some ''Storage'', Some ''Compute'', Some ''Storage'']),
      (''CostInBillingCurrency'', FloatCol [Some 3, Some 5, Some 10])]"

text \<open>The table \<open>main\<close> gets from \<open>billing_example\<close> by adding the temporal columns.\<close>

definition billing_example_derived :: frame where
  "billing_example_derived =
     [(''AccountName'', StrCol [Some ''Contoso'', Some ''Contoso'', Some ''Fabrikam'']),
      (''SubscriptionName'', StrCol [Some ''B'', Some ''A'', Some ''A'']),
      (''Date'', DatetimeCol [Some (2024, 2, 1), Some (2024, 1, 15), Some (2024, 1, 1)]),
      (''MeterCategory'', StrCol [Some ''Storage'', Some ''Compute'', Some ''Storage'']),
      (''CostInBillingCurrency'', FloatCol [Some 3, Some 5, Some 10]),
      (''Month'', PeriodMCol [Some (2024, 2), Some (2024, 1), Some (2024, 1)]),
      (''Year'', PeriodYCol [Some 2024, Some 2024, Some 2024])]"

text \<open>The same rows, the second without an \<open>AccountName\<close>.\<close>

definition missing_account_example :: frame where
  "missing_account_example =
     [(''AccountName'', StrCol [Some ''Contoso'', None, Some ''Fabrikam'']),
      (''SubscriptionName'', StrCol [Some ''B'', Some ''A'', Some ''A'']),
      (''Date'', StrCol [Some ''2024-02-01'', Some ''2024-01-15'', Some ''2024-01-01'']),
      (''MeterCategory'', StrCol [Some ''Storage'', Some ''Compute'', Some ''Storage'']),
      (''CostInBillingCurrency'', FloatCol [Some 3, Some 5, Some 10])]"

text \<open>One row whose \<open>SubscriptionName\<close> holds a line feed.\<close>

definition line_break_example :: frame where
  "line_break_example =
     [(''SubscriptionName'', StrCol [Some ''A\<newline>B'']),
      (''Date'', StrCol [Some ''2024-01-01'']),
      (''CostInBillingCurrency'', FloatCol [Some 1])]"

text \<open>The three rows of the example of the specification.\<close>

definition example_table :: frame where
  "example_table =
     [(''SubscriptionName'', StrCol [Some ''A'', Some ''A'', Some ''B'']),
      (''CostInBillingCurrency'', FloatCol [Some 10, Some 5, Some 3]),
      (''Date'', StrCol [Some ''2024-01-01'', Some ''2024-01-15'', Some ''2024-02-01''])]"

text \<open>The table \<open>main\<close> gets from \<open>example_table\<close>.\<close>

definition example_derived :: frame where
  "example_derived =
     [(''SubscriptionName'', StrCol [Some ''A'', Some ''A'', Some ''B'']),
      (''CostInBillingCurrency'', FloatCol [Some 10, Some 5, Some 3]),
      (''Date'', DatetimeCol [Some (2024, 1, 1), Some (2024, 1, 15), Some (2024, 2, 1)]),
      (''Month'', PeriodMCol [Some (2024, 1), Some (2024, 1), Some (2024, 2)]),
      (''Year'', PeriodYCol [Some 2024, Some 2024, Some 2024])]"

text \<open>A world whose blob parses to \<open>billing_example\<close> and whose dates are ISO dates.\<close>

definition billing_world :: world where
  "billing_world =
     \<lparr>from_blob_url = (\<lambda>u. None),
      download_blob = (\<lambda>u. Inr ''raw''),
      read_csv = (\<lambda>d. Inr billing_example),
      parse_date = parse_iso8601\<rparr>"

section \<open>Auxiliary facts\<close>

lemma isna_simps [simp]: "isna None" "\<not> isna (Some x)"
  by (simp_all add: isna_def)

lemma dropna_map_Some: "dropna (map Some xs) = xs"
  by (induction xs) auto

lemma group_keys_sorted_list: "group_keys ks = sorted_list_of_set (set (dropna ks))"
  by (simp add: group_keys_def sorted_list_of_set_sort_remdups)

lemma group_keys_distinct: "distinct (group_keys ks)"
  by (simp add: group_keys_def)

lemma group_keys_set: "set (group_keys ks) = set (dropna ks)"
  by (simp add: group_keys_def)

lemma group_keys_length: "length (group_keys ks) = card (set (dropna ks))"
  by (simp add: group_keys_def length_remdups_card_conv)

lemma group_sum_keys: "map fst (group_sum ks cs) = group_keys ks"
  by (simp add: group_sum_def comp_def)

lemma group_sum_length: "length (group_sum ks cs) = card (set (dropna ks))"
  by (simp add: group_sum_def group_keys_length)

lemma group_total_Nil [simp]: "group_total k [] cs = 0" "group_total k ks [] = 0"
  by (simp_all add: group_total_def)

lemma group_total_Cons:
  "group_total k (x # ks) (c # cs) = (if x = Some k then cost_of c else 0) + group_total k ks cs"
  by (cases c) (auto simp: group_total_def cost_of_def)

lemma sum_list_indicator:
  "distinct us \<Longrightarrow> sum_list (map (\<lambda>k. if x = Some k then (v::rat) else 0) us)
     = (case x of None \<Rightarrow> 0 | Some k \<Rightarrow> if k \<in> set us then v else 0)"
  by (induction us) (auto split: option.splits)

lemma sum_group_totals:
  "distinct us \<Longrightarrow> set (dropna ks) \<subseteq> set us \<Longrightarrow>
   sum_list (map (\<lambda>k. group_total k ks cs) us)
     = sum_list (dropna (map snd (filter (\<lambda>(k, c). \<not> isna k) (zip ks cs))))"
proof (induction ks arbitrary: cs)
  case Nil
  then show ?case by simp
next
  case (Cons x ks)
  show ?case
  proof (cases cs)
    case Nil
    then show ?thesis by simp
  next
    case (Cons c cs')
    have sub: "set (dropna ks) \<subseteq> set us"
      using Cons.prems(2) by (cases x) auto
    have "sum_list (map (\<lambda>k. group_total k (x # ks) (c # cs')) us)
        = sum_list (map (\<lambda>k. if x = Some k then cost_of c else 0) us)
          + sum_list (map (\<lambda>k. group_total k ks cs') us)"
      by (simp add: group_total_Cons sum_list_addf)
    also have "sum_list (map (\<lambda>k. if x = Some k then cost_of c else 0) us)
        = (case x of None \<Rightarrow> 0 | Some k \<Rightarrow> cost_of c)"
      using Cons.prems sum_list_indicator [OF Cons.prems(1), of x "cost_of c"]
      by (cases x) auto
    also have "sum_list (map (\<lambda>k. group_total k ks cs') us)
        = sum_list (dropna (map snd (filter (\<lambda>(k, c). \<not> isna k) (zip ks cs'))))"
      using Cons.IH [OF Cons.prems(1) sub] .
    finally show ?thesis
      using Cons by (cases x; cases c) (auto simp: cost_of_def)
  qed
qed

lemma group_sum_total:
  "sum_list (map snd (group_sum ks cs))
     = sum_list (dropna (map snd (filter (\<lambda>(k, c). \<not> isna k) (zip ks cs))))"
  using sum_group_totals [of "group_keys ks" ks cs]
  by (simp add: group_sum_def comp_def group_keys_distinct group_keys_set)

lemma bind_e_Inr [simp]: "bind_e (Inr v) f = f v"
  by (simp add: bind_e_def)

lemma bind_e_Inl [simp]: "bind_e (Inl e) f = Inl e"
  by (simp add: bind_e_def)

lemma bind_e_eq_Inr: "bind_e r f = Inr y \<longleftrightarrow> (\<exists>v. r = Inr v \<and> f v = Inr y)"
  by (cases r) auto

lemma get_col_eq_Inr: "get_col df name = Inr c \<longleftrightarrow> map_of df name = Some c"
  by (simp add: get_col_def split: option.splits)

lemma map_of_set_col: "map_of (set_col name col df) = (map_of df)(name \<mapsto> col)"
  by (induction df) (auto simp: fun_eq_iff)

lemma get_col_set_col:
  "get_col (set_col name col df) n = (if n = name then Inr col else get_col df n)"
  by (simp add: get_col_def map_of_set_col)

lemma parse_all_length: "parse_all p xs = Inr ds \<Longrightarrow> length ds = length xs"
  by (induction p xs arbitrary: ds rule: parse_all.induct)
     (auto simp: bind_e_eq_Inr split: option.splits)

lemma cost_by_sub_frame:
  "cost_by_sub df d f =
     bind_e (report_frame df ''SubscriptionName'') (\<lambda>a. Inr (os_path_join d f, to_csv a False))"
  by (simp add: cost_by_sub_def report_frame_def Let_def)

lemma cost_by_meter_cat_frame:
  "cost_by_meter_cat df d f =
     bind_e (report_frame df ''MeterCategory'') (\<lambda>a. Inr (os_path_join d f, to_csv a False))"
  by (simp add: cost_by_meter_cat_def report_frame_def Let_def)

lemma cost_by_account_frame:
  "cost_by_account df d f =
     bind_e (report_frame df ''AccountName'') (\<lambda>a. Inr (os_path_join d f, to_csv a False))"
  by (simp add: cost_by_account_def report_frame_def Let_def)

lemma cost_by_month_frame:
  "cost_by_month df d f =
     bind_e (report_frame df ''Month'') (\<lambda>a. Inr (os_path_join d f, to_csv a False))"
  by (simp add: cost_by_month_def report_frame_def Let_def)

lemma report_frame_eq:
  assumes "get_col df key = Inr kc"
    and "get_col df ''CostInBillingCurrency'' = Inr (FloatCol cs)"
    and "key \<noteq> ''CostInBillingCurrency''"
  shows "report_frame df key =
     Inr [(key, fst (sum_by kc cs)), (''CostInBillingCurrency'', snd (sum_by kc cs))]"
  using assms
  by (simp add: report_frame_def groupby_def agg_sum_def reset_index_def split: prod.splits)

lemma sum_by_labels: "fst (sum_by kc cs) = unique_sorted kc"
  by (cases kc) (simp_all add: Let_def group_sum_keys group_keys_sorted_list flip: map_map)

lemma col_len_unique_sorted: "col_len (unique_sorted kc) = nunique kc"
  by (cases kc) simp_all

lemma sum_by_totals:
  "\<exists>ts. snd (sum_by kc cs) = FloatCol (map Some ts) \<and> length ts = nunique kc"
  by (cases kc) (simp_all add: Let_def group_sum_length flip: map_map)

lemma rows_of_two: "rows_of [a, b] = map2 (\<lambda>x y. [x, y]) a b"
  by (simp add: zip_map2 case_prod_unfold)

lemma length_col_strs [simp]: "length (col_strs c) = col_len c"
  by (cases c) simp_all

lemma csv_records_two:
  "csv_records [(a, ca), (b, cb)] False = [a, b] # map2 (\<lambda>x y. [x, y]) (col_strs ca) (col_strs cb)"
  by (simp add: csv_records_def rows_of_two del: rows_of.simps)

lemma csv_records_two_length:
  "col_len ca = col_len cb \<Longrightarrow> length (csv_records [(a, ca), (b, cb)] False) = Suc (col_len ca)"
  by (simp add: csv_records_two)


lemma contents_append [simp]: "contents (a @ b) = contents a @ contents b"
  by (simp add: contents_def)

lemma contents_Cons [simp]:
  "contents (Write p c # ev) = c # contents ev"
  "contents (MakeDirs p # ev) = contents ev"
  "contents (OpenWrite p # ev) = contents ev"
  "contents (Download p # ev) = contents ev"
  "contents (ReadFile p # ev) = contents ev"
  "contents [] = []"
  by (simp_all add: contents_def)

lemma content_of_simps [simp]:
  "content_of (Inl e) = Inl e" "content_of (Inr (p, c)) = Inr c"
  by (simp_all add: content_of_def)

lemma run_reports_contents:
  "map content_of rs = map content_of rs' \<Longrightarrow>
     contents (fst (run_reports rs)) = contents (fst (run_reports rs')) \<and>
     snd (run_reports rs) = snd (run_reports rs')"
proof (induction rs arbitrary: rs' rule: run_reports.induct)
  case 1
  then show ?case by simp
next
  case (2 e rs)
  then obtain r rs'' where "rs' = r # rs''" by (cases rs') auto
  with 2 show ?case by (cases r) (auto simp: content_of_def split: prod.splits)
next
  case (3 p c rs)
  then obtain r rs'' where r: "rs' = r # rs''" by (cases rs') auto
  with 3(2) obtain p' where r': "r = Inr (p', c)"
    by (cases r) (auto simp: content_of_def split: prod.splits)
  from 3(2) r have "map content_of rs = map content_of rs''" by simp
  from 3(1) [OF this] show ?case
    by (simp add: r r' case_prod_beta)
qed

lemma generator_content_indep:
  "content_of (cost_by_sub df d f) = content_of (cost_by_sub df d' f')"
  "content_of (cost_by_meter_cat df d f) = content_of (cost_by_meter_cat df d' f')"
  "content_of (cost_by_account df d f) = content_of (cost_by_account df d' f')"
  "content_of (cost_by_month df d f) = content_of (cost_by_month df d' f')"
  by (simp_all add: cost_by_sub_frame cost_by_meter_cat_frame cost_by_account_frame
      cost_by_month_frame bind_e_def split: sum.splits)

lemma main_contents:
  "contents (fst (main w t1 src out1)) = contents (fst (main w t2 src out2)) \<and>
   snd (main w t1 src out1) = snd (main w t2 src out2)"
proof (cases "src = []")
  case True
  then show ?thesis by (simp add: main_def)
next
  case False
  note src = this
  show ?thesis
  proof (cases "from_blob_url w src")
    case (Some e)
    with src show ?thesis
      by (simp add: main_def Let_def load_csv_from_azure_blob_def)
  next
    case None
    note url = this
    show ?thesis
    proof (cases "download_blob w src")
      case (Inl e)
      with src url show ?thesis
        by (simp add: main_def Let_def load_csv_from_azure_blob_def)
    next
      case (Inr data)
      note data = this
      show ?thesis
      proof (cases "read_csv w data")
        case (Inl e)
        with src url data show ?thesis
          by (simp add: main_def Let_def load_csv_from_azure_blob_def)
      next
        case (Inr df0)
        note df0 = this
        show ?thesis
        proof (cases "add_temporal_columns (parse_date w) df0")
          case (Inl e)
          with src url data df0 show ?thesis
            by (simp add: main_def Let_def load_csv_from_azure_blob_def)
        next
          case (Inr df)
          let ?r1 = "run_reports
                       [cost_by_sub df (os_path_join out1 t1) ''cost_by_subscription.csv'',
                        cost_by_meter_cat df (os_path_join out1 t1) ''cost_by_meter_cat.csv'',
                        cost_by_account df (os_path_join out1 t1) ''cost_by_account.csv'',
                        cost_by_month df (os_path_join out1 t1) ''cost_by_month.csv'']"
          let ?r2 = "run_reports
                       [cost_by_sub df (os_path_join out2 t2) ''cost_by_subscription.csv'',
                        cost_by_meter_cat df (os_path_join out2 t2) ''cost_by_meter_cat.csv'',
                        cost_by_account df (os_path_join out2 t2) ''cost_by_account.csv'',
                        cost_by_month df (os_path_join out2 t2) ''cost_by_month.csv'']"
          have "contents (fst ?r1) = contents (fst ?r2) \<and> snd ?r1 = snd ?r2"
            by (rule run_reports_contents)
               (simp add: generator_content_indep [of df _ _ "os_path_join out2 t2"])
          with src url data df0 Inr show ?thesis
            by (simp add: main_def Let_def load_csv_from_azure_blob_def case_prod_beta)
        qed
      qed
    qed
  qed
qed

lemma add_temporal_columns_Inr:
  assumes "add_temporal_columns p df0 = Inr df"
  obtains dc ds where "get_col df0 ''Date'' = Inr dc" "to_datetime p dc = Inr (DatetimeCol ds)"
    "df = set_col ''Year'' (PeriodYCol (map (map_option year_of) ds))
           (set_col ''Month'' (PeriodMCol (map (map_option month_of) ds))
              (set_col ''Date'' (DatetimeCol ds) df0))"
proof -
  from assms obtain dc dates where dc: "get_col df0 ''Date'' = Inr dc"
    and dates: "to_datetime p dc = Inr dates"
    and rest: "(let df1 = set_col ''Date'' dates df0
          in bind_e (bind_e (get_col df1 ''Date'') dt_to_period_M)
               (\<lambda>months.
                  let df2 = set_col ''Month'' months df1
                  in bind_e (bind_e (get_col df2 ''Date'') dt_to_period_Y)
                       (\<lambda>years. Inr (set_col ''Year'' years df2)))) = Inr df"
    unfolding add_temporal_columns_def by (auto simp: bind_e_eq_Inr)
  from dates obtain ds where ds: "dates = DatetimeCol ds"
    by (cases dc) (auto simp: to_datetime_def bind_e_eq_Inr)
  from rest have "df = set_col ''Year'' (PeriodYCol (map (map_option year_of) ds))
           (set_col ''Month'' (PeriodMCol (map (map_option month_of) ds))
              (set_col ''Date'' (DatetimeCol ds) df0))"
    by (simp add: ds Let_def get_col_set_col dt_to_period_M_def dt_to_period_Y_def)
  with dc dates ds that show thesis by blast
qed

lemma derived_other_cols:
  assumes "add_temporal_columns p df0 = Inr df"
    and "n \<noteq> ''Date''" "n \<noteq> ''Month''" "n \<noteq> ''Year''"
  shows "get_col df n = get_col df0 n"
  using assms(1)
  by (rule add_temporal_columns_Inr) (simp add: get_col_set_col assms(2-))

lemma derived_month_col:
  assumes "add_temporal_columns p df0 = Inr df"
    and "get_col df0 ''Date'' = Inr (StrCol xs)"
  obtains ds where "parse_all p xs = Inr ds"
    "get_col df ''Month'' = Inr (PeriodMCol (map (map_option month_of) ds))"
    "get_col df ''Date'' = Inr (DatetimeCol ds)"
proof -
  from assms(1) obtain dc ds where "get_col df0 ''Date'' = Inr dc"
    "to_datetime p dc = Inr (DatetimeCol ds)"
    "df = set_col ''Year'' (PeriodYCol (map (map_option year_of) ds))
           (set_col ''Month'' (PeriodMCol (map (map_option month_of) ds))
              (set_col ''Date'' (DatetimeCol ds) df0))"
    by (rule add_temporal_columns_Inr)
  with assms(2) have "parse_all p xs = Inr ds"
    "get_col df ''Month'' = Inr (PeriodMCol (map (map_option month_of) ds))"
    "get_col df ''Date'' = Inr (DatetimeCol ds)"
    by (auto simp: to_datetime_def bind_e_eq_Inr get_col_set_col)
  then show thesis by (rule that)
qed

lemma get_col_in_set: "get_col df n = Inr c \<Longrightarrow> (n, c) \<in> set df"
  by (simp add: get_col_eq_Inr map_of_SomeD)

lemma same_len_cols:
  assumes "same_len df" "get_col df a = Inr ca" "get_col df b = Inr cb"
  shows "col_len ca = col_len cb"
proof -
  from assms(2,3) have "(a, ca) \<in> set df" "(b, cb) \<in> set df"
    by (auto dest: get_col_in_set)
  moreover from assms(1) have "\<forall>x\<in>set df. col_len (snd x) = col_len (snd (hd df))"
    by (simp add: same_len_def list_all_iff case_prod_beta)
  ultimately have "col_len (snd (a, ca)) = col_len (snd (hd df))"
    "col_len (snd (b, cb)) = col_len (snd (hd df))" by blast+
  then show ?thesis by simp
qed

lemma dtype_str: "dtype c = ''str'' \<Longrightarrow> \<exists>xs. c = StrCol xs"
  by (cases c) simp_all

lemma dtype_float: "dtype c = ''float'' \<Longrightarrow> \<exists>xs. c = FloatCol xs"
  by (cases c) simp_all

lemma dtypes_ok_col:
  assumes "dtypes_ok df" "get_col df n = Inr c" "map_of BILLING_DETAIL_TYPES n = Some t"
  shows "dtype c = t"
proof -
  from assms(2) have "(n, c) \<in> set df" by (rule get_col_in_set)
  with assms(1,3) show ?thesis
    by (auto simp: dtypes_ok_def list_all_iff)
qed

lemma declared_types:
  "map_of BILLING_DETAIL_TYPES ''SubscriptionName'' = Some ''str''"
  "map_of BILLING_DETAIL_TYPES ''MeterCategory'' = Some ''str''"
  "map_of BILLING_DETAIL_TYPES ''AccountName'' = Some ''str''"
  "map_of BILLING_DETAIL_TYPES ''Date'' = Some ''str''"
  "map_of BILLING_DETAIL_TYPES ''CostInBillingCurrency'' = Some ''float''"
  by (simp_all add: BILLING_DETAIL_TYPES_def)

lemma billing_table_str:
  assumes "billing_table df" "get_col df n = Inr c"
    and "n = ''SubscriptionName'' \<or> n = ''MeterCategory'' \<or> n = ''AccountName'' \<or> n = ''Date''"
  shows "\<exists>xs. c = StrCol xs"
proof -
  from assms(3) have "map_of BILLING_DETAIL_TYPES n = Some ''str''"
    using declared_types by blast
  with assms(1,2) have "dtype c = ''str''"
    unfolding billing_table_def by (blast intro: dtypes_ok_col)
  then show ?thesis by (rule dtype_str)
qed

lemma billing_table_cost:
  assumes "billing_table df" "get_col df ''CostInBillingCurrency'' = Inr c"
  shows "\<exists>xs. c = FloatCol xs"
proof -
  from assms have "dtype c = ''float''"
    unfolding billing_table_def using declared_types(5) by (blast intro: dtypes_ok_col)
  then show ?thesis by (rule dtype_float)
qed

lemma take_mask_Nil [simp]: "take_mask [] xs = []" "take_mask m [] = []"
  by (simp_all add: take_mask_def)

lemma take_mask_Cons [simp]:
  "take_mask (b # m) (x # xs) = (if b then x # take_mask m xs else take_mask m xs)"
  by (simp add: take_mask_def)

lemma dropna_take_mask: "dropna (take_mask (map (\<lambda>x. \<not> isna x) ks) ks) = dropna ks"
  by (induction ks rule: dropna.induct) auto

lemma group_total_take_mask:
  "length ks = length cs \<Longrightarrow>
   group_total k (take_mask (map (\<lambda>x. \<not> isna x) ks) ks) (take_mask (map (\<lambda>x. \<not> isna x) ks) cs)
     = group_total k ks cs"
proof (induction ks arbitrary: cs)
  case Nil
  then show ?case by simp
next
  case (Cons x ks)
  then obtain c cs' where cs: "cs = c # cs'" by (cases cs) auto
  with Cons show ?case by (cases x) (auto simp: group_total_Cons)
qed

lemma group_sum_take_mask:
  "length ks = length cs \<Longrightarrow>
   group_sum (take_mask (map (\<lambda>x. \<not> isna x) ks) ks) (take_mask (map (\<lambda>x. \<not> isna x) ks) cs)
     = group_sum ks cs"
  by (simp add: group_sum_def group_keys_def dropna_take_mask group_total_take_mask)

lemma sum_by_mask:
  "col_len kc = length cs \<Longrightarrow>
     sum_by (mask_col (notna kc) kc) (take_mask (notna kc) cs) = sum_by kc cs"
  by (cases kc) (simp_all add: group_sum_take_mask)

lemma present_costs_take_mask:
  "length ks = length cs \<Longrightarrow>
     map snd (filter (\<lambda>(k, c). \<not> isna k) (zip ks cs)) = take_mask (map (\<lambda>x. \<not> isna x) ks) cs"
proof (induction ks arbitrary: cs)
  case Nil
  then show ?case by simp
next
  case (Cons x ks)
  then obtain c cs' where cs: "cs = c # cs'" by (cases cs) auto
  with Cons show ?case by (cases x) auto
qed

lemma sum_by_total:
  "col_len kc = length cs \<Longrightarrow>
     \<exists>ts. snd (sum_by kc cs) = FloatCol (map Some ts) \<and>
          sum_list ts = sum_list (dropna (take_mask (notna kc) cs))"
  by (cases kc)
     (simp_all add: Let_def group_sum_total present_costs_take_mask flip: map_map)

lemma get_col_mask_rows:
  "get_col (mask_rows m df) n = (case get_col df n of Inl e \<Rightarrow> Inl e | Inr c \<Rightarrow> Inr (mask_col m c))"
proof -
  have "map_of (mask_rows m df) n = map_option (mask_col m) (map_of df n)"
    unfolding mask_rows_def by (induction df) auto
  then show ?thesis
    by (simp add: get_col_def split: option.splits)
qed

lemma report_frame_mask:
  assumes "same_len df" "get_col df key = Inr kc"
  shows "report_frame (mask_rows (notna kc) df) key = report_frame df key"
proof (cases "get_col df ''CostInBillingCurrency''")
  case (Inl e)
  with assms(2) show ?thesis
    by (simp add: report_frame_def groupby_def agg_sum_def get_col_mask_rows)
next
  case (Inr cc)
  with assms have len: "col_len kc = col_len cc" by (blast intro: same_len_cols)
  show ?thesis
  proof (cases cc)
    case (FloatCol cs)
    with len have "sum_by (mask_col (notna kc) kc) (take_mask (notna kc) cs) = sum_by kc cs"
      by (simp add: sum_by_mask)
    with assms(2) Inr FloatCol show ?thesis
      by (simp add: report_frame_def groupby_def agg_sum_def get_col_mask_rows)
  qed (use assms(2) Inr in \<open>simp_all add: report_frame_def groupby_def agg_sum_def get_col_mask_rows\<close>)
qed

lemma col_sum_two:
  "key \<noteq> ''CostInBillingCurrency'' \<Longrightarrow>
     col_sum [(key, labels), (''CostInBillingCurrency'', FloatCol xs)] ''CostInBillingCurrency''
       = Inr (sum_list (dropna xs))"
  by (simp add: col_sum_def get_col_def)

lemma report_total_eq:
  assumes "get_col df key = Inr kc"
    and "get_col df ''CostInBillingCurrency'' = Inr (FloatCol cs)"
    and "key \<noteq> ''CostInBillingCurrency''"
    and "col_len kc = length cs"
  shows "report_total df key = Inr (sum_list (dropna (take_mask (notna kc) cs)))"
proof -
  from sum_by_total [OF assms(4)] obtain ts where
    ts: "snd (sum_by kc cs) = FloatCol (map Some ts)"
      "sum_list ts = sum_list (dropna (take_mask (notna kc) cs))" by blast
  show ?thesis
    unfolding report_total_def report_frame_eq [OF assms(1-3)]
    by (simp add: ts col_sum_two [OF assms(3)] dropna_map_Some)
qed

lemma take_mask_all: "list_all id m \<Longrightarrow> length m = length xs \<Longrightarrow> take_mask m xs = xs"
proof (induction m arbitrary: xs)
  case Nil
  then show ?case by simp
next
  case (Cons b m)
  then obtain x xs' where "xs = x # xs'" by (cases xs) auto
  with Cons show ?case by simp
qed

lemma length_notna [simp]: "length (notna c) = col_len c"
  by (cases c) simp_all

lemma line_count_simps [simp]:
  "line_count [] = 0"
  "line_count (a @ b) = line_count a + line_count b"
  "line_count (c # s) = (if c = CHR 0x0A then 1 else 0) + line_count s"
  by (simp_all add: line_count_def)

lemma line_count_concat: "line_count (concat xs) = sum_list (map line_count xs)"
  by (induction xs) simp_all

lemma line_count_csv_field [simp]: "line_count (csv_field s) = line_count s"
proof -
  have "line_count (concat (map (\<lambda>c. if c = CHR 0x22 then [c, c] else [c]) s)) = line_count s"
    by (induction s) simp_all
  then show ?thesis by (simp add: csv_field_def)
qed

lemma line_count_join: "line_count (join '','' fs) = sum_list (map line_count fs)"
  by (induction "'',''" fs rule: join.induct) simp_all

lemma line_count_csv_line:
  "line_count (csv_line fs) = Suc (sum_list (map line_count fs))"
  by (simp add: csv_line_def line_count_join comp_def)

lemma safe_char_not_LF: "safe_char c \<Longrightarrow> c \<noteq> CHR 0x0A"
  by (auto simp: safe_char_def is_digit_def)

lemma safe_line_count: "list_all safe_char s \<Longrightarrow> line_count s = 0"
  by (induction s) (auto dest: safe_char_not_LF)

lemma is_digit_digit: "d < 10 \<Longrightarrow> is_digit (digit d)"
  by (simp add: is_digit_def digit_def)

lemma safe_char_digit: "d < 10 \<Longrightarrow> safe_char (digit d)"
  by (simp add: safe_char_def is_digit_digit)

lemma safe_char_simps [simp]: "safe_char (CHR ''-'')" "safe_char (CHR ''.'')" "safe_char (CHR ''0'')"
  by (simp_all add: safe_char_def is_digit_def)

lemma safe_nat_str: "list_all safe_char (nat_str n)"
proof (induction n rule: nat_str.induct)
  case (1 n)
  show ?case
  proof (cases "n < 10")
    case True
    then show ?thesis
      by (subst nat_str.simps) (simp add: safe_char_digit)
  next
    case False
    with 1 show ?thesis
      by (subst nat_str.simps) (simp add: safe_char_digit)
  qed
qed

lemma safe_zfill: "list_all safe_char s \<Longrightarrow> list_all safe_char (zfill w s)"
  by (auto simp: zfill_def list_all_iff)

lemma safe_frac_digits: "0 \<le> r \<Longrightarrow> r < 1 \<Longrightarrow> list_all safe_char (frac_digits n r)"
proof (induction n arbitrary: r)
  case 0
  then show ?case by simp
next
  case (Suc n)
  let ?t = "r * 10"
  let ?d = "nat \<lfloor>?t\<rfloor>"
  from Suc.prems have t: "0 \<le> ?t" "?t < 10" by simp_all
  then have fl: "0 \<le> \<lfloor>?t\<rfloor>" "\<lfloor>?t\<rfloor> < 10" by (simp_all add: floor_less_iff)
  then have d: "?d < 10" by linarith
  have od: "of_nat ?d = (of_int \<lfloor>?t\<rfloor> :: rat)" using fl by simp
  have "0 \<le> ?t - of_nat ?d" "?t - of_nat ?d < 1"
    unfolding od by linarith+
  with Suc.IH have "list_all safe_char (frac_digits n (?t - of_nat ?d))" by blast
  with d show ?case
    by (simp add: Let_def safe_char_digit)
qed

lemma safe_float_str: "list_all safe_char (float_str q)"
proof -
  have "0 \<le> \<bar>q\<bar> - of_int \<lfloor>\<bar>q\<bar>\<rfloor>" "\<bar>q\<bar> - of_int \<lfloor>\<bar>q\<bar>\<rfloor> < 1"
    by linarith+
  then have "list_all safe_char (frac_digits 17 (\<bar>q\<bar> - of_int \<lfloor>\<bar>q\<bar>\<rfloor>))"
    by (rule safe_frac_digits)
  then show ?thesis
    by (simp add: float_str_def safe_nat_str)
qed

lemma safe_month_str: "list_all safe_char (month_str p)"
  by (cases p) (simp add: month_str_def safe_zfill safe_nat_str)

lemma same_len_iff:
  "same_len df \<longleftrightarrow> (\<forall>x\<in>set df. \<forall>y\<in>set df. col_len (snd x) = col_len (snd y))"
proof
  assume "same_len df"
  then have h: "\<And>x. x \<in> set df \<Longrightarrow> col_len (snd x) = col_len (snd (hd df))"
    unfolding same_len_def list_all_iff case_prod_beta by blast
  show "\<forall>x\<in>set df. \<forall>y\<in>set df. col_len (snd x) = col_len (snd y)"
  proof (intro ballI)
    fix x y assume "x \<in> set df" "y \<in> set df"
    then show "col_len (snd x) = col_len (snd y)" using h [of x] h [of y] by (rule_tac trans) auto
  qed
next
  assume a: "\<forall>x\<in>set df. \<forall>y\<in>set df. col_len (snd x) = col_len (snd y)"
  show "same_len df"
  proof (cases df)
    case Nil
    then show ?thesis by (simp add: same_len_def)
  next
    case (Cons x xs)
    then have "hd df \<in> set df" by simp
    with a have "\<forall>x\<in>set df. col_len (snd x) = col_len (snd (hd df))" by blast
    then show ?thesis
      unfolding same_len_def list_all_iff case_prod_beta .
  qed
qed

lemma set_set_col: "set (set_col n c df) \<subseteq> insert (n, c) (set df)"
  by (induction df) (auto split: if_splits)

lemma same_len_set_col:
  assumes "same_len df" "get_col df n0 = Inr c0" "col_len c = col_len c0"
  shows "same_len (set_col n c df)"
proof -
  from assms(2) have in0: "(n0, c0) \<in> set df" by (rule get_col_in_set)
  have all: "\<forall>x\<in>set df. col_len (snd x) = col_len c0"
  proof
    fix x assume "x \<in> set df"
    with assms(1) in0 have "col_len (snd x) = col_len (snd (n0, c0))"
      unfolding same_len_iff by blast
    then show "col_len (snd x) = col_len c0" by simp
  qed
  have "\<forall>x\<in>set (set_col n c df). col_len (snd x) = col_len c0"
  proof
    fix x assume "x \<in> set (set_col n c df)"
    with set_set_col have "x = (n, c) \<or> x \<in> set df" by blast
    with all assms(3) show "col_len (snd x) = col_len c0" by auto
  qed
  then show ?thesis unfolding same_len_iff by metis
qed

lemma to_datetime_len: "to_datetime p dc = Inr c \<Longrightarrow> col_len c = col_len dc"
  by (cases dc) (auto simp: to_datetime_def bind_e_eq_Inr dest: parse_all_length)

lemma derived_same_len:
  assumes "same_len df0" "add_temporal_columns p df0 = Inr df"
  shows "same_len df"
proof -
  from assms(2) obtain dc ds where dc: "get_col df0 ''Date'' = Inr dc"
    and dt: "to_datetime p dc = Inr (DatetimeCol ds)"
    and df: "df = set_col ''Year'' (PeriodYCol (map (map_option year_of) ds))
           (set_col ''Month'' (PeriodMCol (map (map_option month_of) ds))
              (set_col ''Date'' (DatetimeCol ds) df0))"
    by (rule add_temporal_columns_Inr)
  let ?df1 = "set_col ''Date'' (DatetimeCol ds) df0"
  let ?df2 = "set_col ''Month'' (PeriodMCol (map (map_option month_of) ds)) ?df1"
  from dt have l: "col_len (DatetimeCol ds) = col_len dc" by (rule to_datetime_len)
  from assms(1) dc l have s1: "same_len ?df1" by (rule same_len_set_col)
  have g1: "get_col ?df1 ''Date'' = Inr (DatetimeCol ds)" by (simp add: get_col_set_col)
  from s1 g1 have s2: "same_len ?df2" by (rule same_len_set_col) simp
  have g2: "get_col ?df2 ''Date'' = Inr (DatetimeCol ds)" by (simp add: get_col_set_col)
  from s2 g2 show ?thesis unfolding df by (rule same_len_set_col) simp
qed

lemma report_written:
  assumes "get_col df key = Inr kc"
    and "get_col df ''CostInBillingCurrency'' = Inr (FloatCol cs)"
    and "key \<noteq> ''CostInBillingCurrency''"
  shows "bind_e (report_frame df key) (\<lambda>a. Inr (os_path_join d f, to_csv a False))
       = Inr (os_path_join d f, report_text key (unique_sorted kc) (snd (sum_by kc cs)))"
  unfolding report_frame_eq [OF assms]
  by (simp add: to_csv_def csv_records_two report_text_def sum_by_labels)

lemma dropna_map_option: "dropna (map (map_option f) xs) = map f (dropna xs)"
  by (induction xs rule: dropna.induct) auto

lemma isna_map_option [simp]: "isna (map_option f x) = isna x"
  by (cases x) auto

lemma notna_months: "notna (PeriodMCol (map (map_option f) ds)) = notna (DatetimeCol ds)"
  by (simp add: comp_def)

lemma notna_parsed:
  "parse_all p xs = Inr ds \<Longrightarrow> notna (DatetimeCol ds) = notna (StrCol xs)"
  by (induction p xs arbitrary: ds rule: parse_all.induct)
     (auto simp: bind_e_eq_Inr split: option.splits)

lemma generators_frame:
  assumes "(key, gen) \<in> set generators"
  shows "gen df d f = bind_e (report_frame df key) (\<lambda>a. Inr (os_path_join d f, to_csv a False))"
    and "key \<noteq> ''CostInBillingCurrency''"
    and "key \<noteq> ''Date''" and "key \<noteq> ''Year''"
  using assms
  by (auto simp: generators_def cost_by_sub_frame cost_by_meter_cat_frame
      cost_by_account_frame cost_by_month_frame)

lemma col_sum_mask_rows:
  "col_sum (mask_rows m df) name =
     (case get_col df name of
        Inl e \<Rightarrow> Inl e
      | Inr c \<Rightarrow> (case c of FloatCol xs \<Rightarrow> Inr (sum_list (dropna (take_mask m xs)))
                         | _ \<Rightarrow> Inl (TypeError name)))"
  by (simp add: col_sum_def get_col_mask_rows split: sum.splits column.splits)

lemma report_total_mask:
  assumes "same_len df" "get_col df key = Inr kc" "key \<noteq> ''CostInBillingCurrency''"
  shows "report_total df key = col_sum (mask_rows (notna kc) df) ''CostInBillingCurrency''"
proof (cases "get_col df ''CostInBillingCurrency''")
  case (Inl e)
  with assms(2) show ?thesis
    by (simp add: report_total_def report_frame_def groupby_def agg_sum_def col_sum_mask_rows)
next
  case (Inr cc)
  show ?thesis
  proof (cases cc)
    case (FloatCol cs)
    from assms(1,2) Inr have "col_len kc = col_len cc" by (rule same_len_cols)
    with FloatCol have len: "col_len kc = length cs" by simp
    from Inr FloatCol have c: "get_col df ''CostInBillingCurrency'' = Inr (FloatCol cs)" by simp
    show ?thesis
      unfolding report_total_eq [OF assms(2) c assms(3) len]
      by (simp add: col_sum_mask_rows c)
  qed (use assms(2) Inr in \<open>simp_all add: report_total_def report_frame_def groupby_def
         agg_sum_def col_sum_mask_rows\<close>)
qed

lemma billing_example_ok: "billing_table billing_example"
  by code_simp

lemma billing_example_derive:
  "add_temporal_columns parse_iso8601 billing_example = Inr billing_example_derived"
  by code_simp

lemma missing_account_ok: "billing_table missing_account_example"
  by code_simp

lemma missing_account_derive:
  "add_temporal_columns parse_iso8601 missing_account_example = Inr missing_account_derived"
  by code_simp

lemma complete_col:
  assumes "complete df n"
  obtains c where "get_col df n = Inr c" "list_all id (notna c)"
  using assms by (auto simp: complete_def split: sum.splits)

lemma report_total_complete:
  assumes "get_col df key = Inr kc" "list_all id (notna kc)"
    and "get_col df ''CostInBillingCurrency'' = Inr (FloatCol cs)"
    and "key \<noteq> ''CostInBillingCurrency''" "col_len kc = length cs"
  shows "report_total df key = Inr (sum_list (dropna cs))"
proof -
  from assms(2,5) have "take_mask (notna kc) cs = cs"
    by (intro take_mask_all) simp_all
  with report_total_eq [OF assms(1,3,4,5)] show ?thesis by simp
qed

lemma line_count_rows:
  "length ls = length ts \<Longrightarrow>
     sum_list (map (\<lambda>r. line_count (csv_line r)) (map2 (\<lambda>k v. [k, v]) ls ts))
       = length ls + sum_list (map line_count ls) + sum_list (map line_count ts)"
  by (induction ls ts rule: list_induct2) (simp_all add: line_count_csv_line)

lemma line_count_cost_name [simp]: "line_count ''CostInBillingCurrency'' = 0"
  by (simp add: line_count_def)

lemma line_count_report_text:
  assumes "col_len labels = col_len totals"
  shows "line_count (report_text key labels totals)
       = Suc (col_len labels) + line_count key + breaks labels + breaks totals"
  using line_count_rows [of "col_strs labels" "col_strs totals"] assms
  by (simp add: report_text_def line_count_concat comp_def line_count_csv_line breaks_def)

lemma breaks_floats [simp]: "breaks (FloatCol xs) = 0"
proof -
  have "line_count (na_or float_str x) = 0" for x
    by (cases x) (simp_all add: na_or_def safe_line_count safe_float_str)
  then show ?thesis by (simp add: breaks_def comp_def)
qed

lemma breaks_months [simp]: "breaks (PeriodMCol xs) = 0"
proof -
  have "line_count (na_or month_str x) = 0" for x
    by (cases x) (simp_all add: na_or_def safe_line_count safe_month_str)
  then show ?thesis by (simp add: breaks_def comp_def)
qed

lemma sum_by_totals_len:
  "col_len (snd (sum_by kc cs)) = nunique kc" "breaks (snd (sum_by kc cs)) = 0"
  using sum_by_totals [of kc cs] by auto

lemma report_text_records:
  "report_text key labels totals = to_csv [(key, labels), (''CostInBillingCurrency'', totals)] False"
  by (simp add: report_text_def to_csv_def csv_records_two)

lemma os_path_join_inj:
  assumes "relative t1" "relative t2"
  shows "os_path_join a t1 = os_path_join a t2 \<longleftrightarrow> t1 = t2"
proof -
  have "os_path_join a t = (if a = [] \<or> last a = CHR ''/'' then a else a @ ''/'') @ t"
    if "relative t" for t
    using that by (auto simp: os_path_join_def relative_def)
  with assms show ?thesis by simp
qed

section \<open>Properties of the reports and of the run\<close>

text \<open>
  C1 (as amended). Take a well-formed billing table in which no row misses its
  \<open>SubscriptionName\<close>, \<open>MeterCategory\<close>, \<open>AccountName\<close> or \<open>Date\<close>, and
  the table \<open>main\<close> derives from it. Then each of the four generators writes the CSV
  of a table whose cost column sums to the same grand total, the sum of
  \<open>CostInBillingCurrency\<close> over all input rows. Costs are added exactly.
\<close>

theorem report_totals_agree:
  assumes "billing_table df0" and "add_temporal_columns parse df0 = Inr df"
    and "complete df0 ''SubscriptionName''" and "complete df0 ''MeterCategory''"
    and "complete df0 ''AccountName''" and "complete df0 ''Date''"
    and "col_sum df0 ''CostInBillingCurrency'' = Inr grand"
    and "(key, gen) \<in> set generators"
  shows "\<exists>a. report_frame df key = Inr a
           \<and> gen df d f = Inr (os_path_join d f, to_csv a False)
           \<and> col_sum a ''CostInBillingCurrency'' = Inr grand"
proof -
  from assms(1) have sl0: "same_len df0" by (simp add: billing_table_def)
  then have sl: "same_len df" using assms(2) by (rule derived_same_len)
  from assms(7) obtain cc where cc0: "get_col df0 ''CostInBillingCurrency'' = Inr cc"
    by (auto simp: col_sum_def bind_e_eq_Inr)
  with assms(1) obtain cs where cs: "cc = FloatCol cs"
    using billing_table_cost by blast
  from assms(7) cc0 cs have total: "grand = sum_list (dropna cs)"
    by (simp add: col_sum_def)
  have cost: "get_col df ''CostInBillingCurrency'' = Inr (FloatCol cs)"
    using derived_other_cols [OF assms(2), of "''CostInBillingCurrency''"] cc0 cs by simp
  from assms(8) have kne: "key \<noteq> ''CostInBillingCurrency''" "key \<noteq> ''Date''" "key \<noteq> ''Year''"
    by (rule generators_frame)+
  have "\<exists>kc. get_col df key = Inr kc \<and> list_all id (notna kc)"
  proof (cases "key = ''Month''")
    case True
    from assms(6) obtain dc where dc: "get_col df0 ''Date'' = Inr dc" "list_all id (notna dc)"
      by (rule complete_col)
    with assms(1) obtain xs where xs: "dc = StrCol xs"
      using billing_table_str by blast
    from assms(2) dc(1) [unfolded xs] obtain ds where ds: "parse_all parse xs = Inr ds"
      "get_col df ''Month'' = Inr (PeriodMCol (map (map_option month_of) ds))"
      by (rule derived_month_col)
    have "notna (PeriodMCol (map (map_option month_of) ds)) = notna dc"
      unfolding xs notna_months using ds(1) by (rule notna_parsed)
    with dc(2) have "list_all id (notna (PeriodMCol (map (map_option month_of) ds)))"
      by (simp only:)
    with ds(2) True show ?thesis by blast
  next
    case False
    with assms(8) have k: "key = ''SubscriptionName'' \<or> key = ''MeterCategory'' \<or> key = ''AccountName''"
      by (auto simp: generators_def)
    with assms(3,4,5) have "complete df0 key" by blast
    then obtain kc where kc: "get_col df0 key = Inr kc" "list_all id (notna kc)"
      by (rule complete_col)
    from False kne have "get_col df key = get_col df0 key"
      by (intro derived_other_cols [OF assms(2)])
    with kc show ?thesis by auto
  qed
  then obtain kc where kc: "get_col df key = Inr kc" "list_all id (notna kc)" by blast
  from sl kc(1) cost have "col_len kc = col_len (FloatCol cs)" by (rule same_len_cols)
  then have len: "col_len kc = length cs" by simp
  from kc cost kne(1) len have "report_total df key = Inr grand"
    unfolding total by (rule report_total_complete)
  then obtain a where a: "report_frame df key = Inr a" "col_sum a ''CostInBillingCurrency'' = Inr grand"
    by (auto simp: report_total_def bind_e_eq_Inr)
  have "gen df d f = Inr (os_path_join d f, to_csv a False)"
    unfolding generators_frame(1) [OF assms(8)] a(1) by simp
  with a show ?thesis by blast
qed

text \<open>
  The hypotheses hold on \<open>billing_example\<close>, where the month report and the account
  report both sum to 18.
\<close>

theorem report_totals_agree_witness:
  "billing_table billing_example
   \<and> add_temporal_columns parse_iso8601 billing_example = Inr billing_example_derived
   \<and> complete billing_example ''SubscriptionName'' \<and> complete billing_example ''MeterCategory''
   \<and> complete billing_example ''AccountName'' \<and> complete billing_example ''Date''
   \<and> col_sum billing_example ''CostInBillingCurrency'' = Inr 18
   \<and> (\<exists>a. report_frame billing_example_derived ''Month'' = Inr a
          \<and> cost_by_month billing_example_derived ''out'' ''cost_by_month.csv''
              = Inr (os_path_join ''out'' ''cost_by_month.csv'', to_csv a False)
          \<and> col_sum a ''CostInBillingCurrency'' = Inr 18)
   \<and> (\<exists>a. report_frame billing_example_derived ''AccountName'' = Inr a
          \<and> cost_by_account billing_example_derived ''out'' ''cost_by_account.csv''
              = Inr (os_path_join ''out'' ''cost_by_account.csv'', to_csv a False)
          \<and> col_sum a ''CostInBillingCurrency'' = Inr 18)"
proof -
  have c: "complete billing_example ''SubscriptionName''" "complete billing_example ''MeterCategory''"
    "complete billing_example ''AccountName''" "complete billing_example ''Date''"
    by code_simp+
  have t: "col_sum billing_example ''CostInBillingCurrency'' = Inr 18" by code_simp
  have g: "(''Month'', cost_by_month) \<in> set generators" "(''AccountName'', cost_by_account) \<in> set generators"
    by (simp_all add: generators_def)
  note agree = report_totals_agree [OF billing_example_ok billing_example_derive c t]
  from agree [OF g(1), of "''out''" "''cost_by_month.csv''"]
       agree [OF g(2), of "''out''" "''cost_by_account.csv''"]
       billing_example_ok billing_example_derive c t
  show ?thesis by (intro conjI)
qed

text \<open>
  Without the condition on missing keys the totals differ. In
  \<open>missing_account_example\<close> the input costs sum to 18 and so does the subscription
  report, but the account report leaves out the row without an account and sums to 13.
\<close>

theorem report_totals_differ_missing_account:
  "billing_table missing_account_example
   \<and> add_temporal_columns parse_iso8601 missing_account_example = Inr missing_account_derived
   \<and> col_sum missing_account_example ''CostInBillingCurrency'' = Inr 18
   \<and> cost_by_sub missing_account_derived ''out'' ''cost_by_subscription.csv''
        = Inr (''out/cost_by_subscription.csv'',
               ''SubscriptionName,CostInBillingCurrency\<newline>A,15.0\<newline>B,3.0\<newline>'')
   \<and> report_total missing_account_derived ''SubscriptionName'' = Inr 18
   \<and> cost_by_account missing_account_derived ''out'' ''cost_by_account.csv''
        = Inr (''out/cost_by_account.csv'',
               ''AccountName,CostInBillingCurrency\<newline>Contoso,3.0\<newline>Fabrikam,10.0\<newline>'')
   \<and> report_total missing_account_derived ''AccountName'' = Inr 13
   \<and> report_total missing_account_derived ''AccountName''
        \<noteq> col_sum missing_account_example ''CostInBillingCurrency''"
  by code_simp

text \<open>
  C2 (as amended). On the three rows of the example the subscription generator writes
  \<open>A,15.0\<close> and \<open>B,3.0\<close> under the header: the sums are \<open>float64\<close> values and
  are written with a decimal point. The month report has the two rows \<open>2024-01\<close> and
  \<open>2024-02\<close> with the costs 15 and 3.
\<close>

theorem example_reports:
  "add_temporal_columns parse_iso8601 example_table = Inr example_derived
   \<and> cost_by_sub example_derived ''out'' ''cost_by_subscription.csv''
        = Inr (''out/cost_by_subscription.csv'',
               ''SubscriptionName,CostInBillingCurrency\<newline>A,15.0\<newline>B,3.0\<newline>'')
   \<and> report_frame example_derived ''Month''
        = Inr [(''Month'', PeriodMCol [Some (2024, 1), Some (2024, 2)]),
               (''CostInBillingCurrency'', FloatCol [Some 15, Some 3])]
   \<and> cost_by_month example_derived ''out'' ''cost_by_month.csv''
        = Inr (''out/cost_by_month.csv'',
               ''Month,CostInBillingCurrency\<newline>2024-01,15.0\<newline>2024-02,3.0\<newline>'')"
  by code_simp

text \<open>
  The two files of the example, without their paths.
\<close>

theorem example_reports_witness:
  "content_of (cost_by_sub example_derived ''out'' ''cost_by_subscription.csv'')
     = Inr ''SubscriptionName,CostInBillingCurrency\<newline>A,15.0\<newline>B,3.0\<newline>''
   \<and> content_of (cost_by_month example_derived ''out'' ''cost_by_month.csv'')
     = Inr ''Month,CostInBillingCurrency\<newline>2024-01,15.0\<newline>2024-02,3.0\<newline>''"
  using example_reports by simp

text \<open>
  The content the example of the specification gives for the subscription report, with
  \<open>A,15\<close> and \<open>B,3\<close>, is not what the generator writes.
\<close>

theorem example_subscription_report_text:
  "add_temporal_columns parse_iso8601 example_table = Inr example_derived
   \<and> content_of (cost_by_sub example_derived ''out'' ''cost_by_subscription.csv'')
        \<noteq> Inr ''SubscriptionName,CostInBillingCurrency\<newline>A,15\<newline>B,3\<newline>''"
  by code_simp

text \<open>
  C3 (as amended). For a well-formed billing table whose \<open>SubscriptionName\<close> column has
  \<open>k\<close> distinct values that are present, the subscription report consists of
  \<open>k + 1\<close> CSV records, the header and one per distinct value. Its number of lines is
  \<open>k + 1\<close> plus the number of line feeds inside the distinct values, so it is
  \<open>k + 1\<close> when no value holds a line feed.
\<close>

theorem subscription_report_lines:
  assumes "billing_table df0" and "add_temporal_columns parse df0 = Inr df"
    and "get_col df0 ''SubscriptionName'' = Inr kc"
    and "get_col df0 ''CostInBillingCurrency'' = Inr cc"
    and "nunique kc = k"
  shows "\<exists>a. report_frame df ''SubscriptionName'' = Inr a
           \<and> cost_by_sub df d f = Inr (os_path_join d f, to_csv a False)
           \<and> length (csv_records a False) = k + 1
           \<and> line_count (to_csv a False) = k + 1 + breaks (unique_sorted kc)"
proof -
  from assms(1,4) obtain cs where cs: "cc = FloatCol cs"
    using billing_table_cost by blast
  have cost: "get_col df ''CostInBillingCurrency'' = Inr (FloatCol cs)"
    using derived_other_cols [OF assms(2), of "''CostInBillingCurrency''"] assms(4) cs by simp
  have key: "get_col df ''SubscriptionName'' = Inr kc"
    using derived_other_cols [OF assms(2), of "''SubscriptionName''"] assms(3) by simp
  let ?a = "[(''SubscriptionName'', unique_sorted kc), (''CostInBillingCurrency'', snd (sum_by kc cs))]"
  have len: "col_len (unique_sorted kc) = col_len (snd (sum_by kc cs))"
    by (simp only: col_len_unique_sorted sum_by_totals_len)
  have "report_frame df ''SubscriptionName''
      = Inr [(''SubscriptionName'', fst (sum_by kc cs)), (''CostInBillingCurrency'', snd (sum_by kc cs))]"
    using key cost by (rule report_frame_eq) simp
  then have a: "report_frame df ''SubscriptionName'' = Inr ?a"
    unfolding sum_by_labels .
  have w: "cost_by_sub df d f = Inr (os_path_join d f, to_csv ?a False)"
    unfolding cost_by_sub_frame report_text_records [symmetric]
    using key cost by (rule report_written) simp
  have "length (csv_records ?a False) = Suc (col_len (unique_sorted kc))"
    using len by (rule csv_records_two_length)
  then have r: "length (csv_records ?a False) = k + 1"
    by (simp add: col_len_unique_sorted assms(5))
  have "line_count (to_csv ?a False)
      = Suc (col_len (unique_sorted kc)) + line_count ''SubscriptionName''
        + breaks (unique_sorted kc) + breaks (snd (sum_by kc cs))"
    unfolding report_text_records [symmetric] using len by (rule line_count_report_text)
  then have l: "line_count (to_csv ?a False) = k + 1 + breaks (unique_sorted kc)"
    by (simp add: col_len_unique_sorted assms(5) sum_by_totals_len line_count_def)
  from a w r l show ?thesis by (intro exI [of _ ?a] conjI)
qed

text \<open>
  On \<open>billing_example\<close> there are two subscriptions, none with a line feed: three
  records and three lines.
\<close>

theorem subscription_report_lines_witness:
  "billing_table billing_example
   \<and> add_temporal_columns parse_iso8601 billing_example = Inr billing_example_derived
   \<and> nunique (StrCol [Some ''B'', Some ''A'', Some ''A'']) = 2
   \<and> breaks (unique_sorted (StrCol [Some ''B'', Some ''A'', Some ''A''])) = 0
   \<and> (\<exists>a. report_frame billing_example_derived ''SubscriptionName'' = Inr a
          \<and> cost_by_sub billing_example_derived ''out'' ''cost_by_subscription.csv''
              = Inr (os_path_join ''out'' ''cost_by_subscription.csv'', to_csv a False)
          \<and> length (csv_records a False) = 2 + 1
          \<and> line_count (to_csv a False) = 2 + 1 + 0)"
proof -
  have k: "get_col billing_example ''SubscriptionName'' = Inr (StrCol [Some ''B'', Some ''A'', Some ''A''])"
    by code_simp
  have c: "get_col billing_example ''CostInBillingCurrency'' = Inr (FloatCol [Some 3, Some 5, Some 10])"
    by code_simp
  have n: "nunique (StrCol [Some ''B'', Some ''A'', Some ''A'']) = 2" by code_simp
  have b: "breaks (unique_sorted (StrCol [Some ''B'', Some ''A'', Some ''A''])) = 0" by code_simp
  from subscription_report_lines [OF billing_example_ok billing_example_derive k c n,
      of "''out''" "''cost_by_subscription.csv''"]
  have "\<exists>a. report_frame billing_example_derived ''SubscriptionName'' = Inr a
          \<and> cost_by_sub billing_example_derived ''out'' ''cost_by_subscription.csv''
              = Inr (os_path_join ''out'' ''cost_by_subscription.csv'', to_csv a False)
          \<and> length (csv_records a False) = 2 + 1
          \<and> line_count (to_csv a False) = 2 + 1 + 0"
    unfolding b .
  with billing_example_ok billing_example_derive n b show ?thesis by (intro conjI)
qed

text \<open>
  A value with a line feed is written in quotes over two lines: one distinct
  subscription, yet three lines.
\<close>

theorem subscription_report_line_break:
  "billing_table line_break_example
   \<and> add_temporal_columns parse_iso8601 line_break_example = Inr line_break_derived
   \<and> get_col line_break_example ''SubscriptionName'' = Inr (StrCol [Some ''A\<newline>B''])
   \<and> nunique (StrCol [Some ''A\<newline>B'']) = 1
   \<and> cost_by_sub line_break_derived ''out'' ''cost_by_subscription.csv''
        = Inr (''out/cost_by_subscription.csv'',
               ''SubscriptionName,CostInBillingCurrency\<newline>'' @ [CHR 0x22] @ ''A\<newline>B'' @ [CHR 0x22] @ '',1.0\<newline>'')
   \<and> line_count (''SubscriptionName,CostInBillingCurrency\<newline>'' @ [CHR 0x22] @ ''A\<newline>B'' @ [CHR 0x22] @ '',1.0\<newline>'') = 3"
  by code_simp

text \<open>
  C4. When the source (the \<open>--source\<close> flag, else \<open>STORAGE_URL\<close>) or the output
  directory (the \<open>--out\<close> flag, else \<open>OUT_FOLDER\<close>) is missing or empty, the script
  raises a \<open>ValueError\<close> with its message and the run has no event: no directory is
  created, nothing is downloaded and no file is opened or written. The source is checked
  first.
\<close>

theorem configuration_error_before_io:
  assumes "\<not> truthy (py_or (source args) (environ ''STORAGE_URL''))
         \<or> \<not> truthy (py_or (out args) (environ ''OUT_FOLDER''))"
  shows "script w timestamp args environ =
           ([], Some (ValueError
              (if \<not> truthy (py_or (source args) (environ ''STORAGE_URL''))
               then ''Source is required. Have you set the STORAGE_URL env variable?''
               else ''Out is required. Have you set the OUT_FOLDER env variable?'')))"
  using assms
  by (auto simp: script_def Let_def truthy_def split: option.splits)

text \<open>
  A run without any source, and a run whose output directory is the empty string.
\<close>

theorem configuration_error_before_io_witness:
  "script billing_world ''20240101T000000'' \<lparr>source = None, out = Some ''out''\<rparr> Map.empty =
           ([], Some (ValueError ''Source is required. Have you set the STORAGE_URL env variable?''))
   \<and> script billing_world ''20240101T000000'' \<lparr>source = Some ''https://blob'', out = Some []\<rparr>
         Map.empty =
           ([], Some (ValueError ''Out is required. Have you set the OUT_FOLDER env variable?''))"
proof -
  have a: "\<not> truthy (py_or (source \<lparr>source = None, out = Some ''out''\<rparr>) (Map.empty ''STORAGE_URL''))
         \<or> \<not> truthy (py_or (out \<lparr>source = None, out = Some ''out''\<rparr>) (Map.empty ''OUT_FOLDER''))"
    by (simp add: truthy_def py_or_def)
  have b: "\<not> truthy (py_or (source \<lparr>source = Some ''https://blob'', out = Some []\<rparr>)
                (Map.empty ''STORAGE_URL''))
         \<or> \<not> truthy (py_or (out \<lparr>source = Some ''https://blob'', out = Some []\<rparr>)
                (Map.empty ''OUT_FOLDER''))"
    by (simp add: truthy_def py_or_def)
  from configuration_error_before_io [OF a, of billing_world "''20240101T000000''"]
       configuration_error_before_io [OF b, of billing_world "''20240101T000000''"]
  show ?thesis
    by (simp add: truthy_def py_or_def)
qed



text \<open>
  C6. When the dates of a well-formed billing table, as parsed, lie in exactly two
  distinct year-month periods, the month report has exactly two data records after the
  header, on three lines.
\<close>

theorem month_report_two_rows:
  assumes "billing_table df0" and "add_temporal_columns parse df0 = Inr df"
    and "get_col df0 ''CostInBillingCurrency'' = Inr cc"
    and "get_col df ''Date'' = Inr (DatetimeCol ds)"
    and "card (set (map month_of (dropna ds))) = 2"
  shows "\<exists>a. report_frame df ''Month'' = Inr a
           \<and> cost_by_month df d f = Inr (os_path_join d f, to_csv a False)
           \<and> length (csv_records a False) = 3
           \<and> line_count (to_csv a False) = 3"
proof -
  from assms(1,3) obtain cs where cs: "cc = FloatCol cs"
    using billing_table_cost by blast
  have cost: "get_col df ''CostInBillingCurrency'' = Inr (FloatCol cs)"
    using derived_other_cols [OF assms(2), of "''CostInBillingCurrency''"] assms(3) cs by simp
  from assms(2) obtain dc ds' where
    df: "df = set_col ''Year'' (PeriodYCol (map (map_option year_of) ds'))
           (set_col ''Month'' (PeriodMCol (map (map_option month_of) ds'))
              (set_col ''Date'' (DatetimeCol ds') df0))"
    by (rule add_temporal_columns_Inr)
  with assms(4) have "ds' = ds" by (simp add: get_col_set_col)
  with df have key: "get_col df ''Month'' = Inr (PeriodMCol (map (map_option month_of) ds))"
    by (simp add: get_col_set_col)
  let ?kc = "PeriodMCol (map (map_option month_of) ds)"
  have n: "nunique ?kc = 2"
    using assms(5) by (simp add: dropna_map_option)
  let ?a = "[(''Month'', unique_sorted ?kc), (''CostInBillingCurrency'', snd (sum_by ?kc cs))]"
  have len: "col_len (unique_sorted ?kc) = col_len (snd (sum_by ?kc cs))"
    by (simp only: col_len_unique_sorted sum_by_totals_len)
  have "report_frame df ''Month''
      = Inr [(''Month'', fst (sum_by ?kc cs)), (''CostInBillingCurrency'', snd (sum_by ?kc cs))]"
    using key cost by (rule report_frame_eq) simp
  then have a: "report_frame df ''Month'' = Inr ?a"
    unfolding sum_by_labels .
  have w: "cost_by_month df d f = Inr (os_path_join d f, to_csv ?a False)"
    unfolding cost_by_month_frame report_text_records [symmetric]
    using key cost by (rule report_written) simp
  have "length (csv_records ?a False) = Suc (col_len (unique_sorted ?kc))"
    using len by (rule csv_records_two_length)
  also have "\<dots> = Suc 2"
    by (simp only: col_len_unique_sorted n)
  also have "\<dots> = 3" by simp
  finally have r: "length (csv_records ?a False) = 3" .
  have "line_count (to_csv ?a False)
      = Suc (col_len (unique_sorted ?kc)) + line_count ''Month''
        + breaks (unique_sorted ?kc) + breaks (snd (sum_by ?kc cs))"
    unfolding report_text_records [symmetric] using len by (rule line_count_report_text)
  moreover have "breaks (unique_sorted ?kc) = 0" by simp
  moreover have "line_count ''Month'' = 0" by (simp add: line_count_def)
  ultimately have "line_count (to_csv ?a False) = Suc 2 + 0 + 0 + 0"
    by (simp only: col_len_unique_sorted n sum_by_totals_len)
  also have "\<dots> = 3" by simp
  finally have l: "line_count (to_csv ?a False) = 3" .
  from a w r l show ?thesis by (intro exI [of _ ?a] conjI)
qed

text \<open>
  The dates of \<open>billing_example\<close> lie in January and February 2024.
\<close>

theorem month_report_two_rows_witness:
  "billing_table billing_example
   \<and> add_temporal_columns parse_iso8601 billing_example = Inr billing_example_derived
   \<and> card (set (map month_of (dropna [Some (2024, 2, 1), Some (2024, 1, 15), Some (2024, 1, 1)]))) = 2
   \<and> (\<exists>a. report_frame billing_example_derived ''Month'' = Inr a
          \<and> cost_by_month billing_example_derived ''out'' ''cost_by_month.csv''
              = Inr (os_path_join ''out'' ''cost_by_month.csv'', to_csv a False)
          \<and> length (csv_records a False) = 3
          \<and> line_count (to_csv a False) = 3)"
proof -
  have c: "get_col billing_example ''CostInBillingCurrency'' = Inr (FloatCol [Some 3, Some 5, Some 10])"
    by code_simp
  have d: "get_col billing_example_derived ''Date''
      = Inr (DatetimeCol [Some (2024, 2, 1), Some (2024, 1, 15), Some (2024, 1, 1)])"
    by code_simp
  have n: "card (set (map month_of (dropna [Some (2024, 2, 1), Some (2024, 1, 15), Some (2024, 1, 1)]))) = 2"
    by code_simp
  from month_report_two_rows [OF billing_example_ok billing_example_derive c d n,
      of "''out''" "''cost_by_month.csv''"]
    billing_example_ok billing_example_derive n
  show ?thesis by (intro conjI)
qed

text \<open>
  C7. The contents a run writes and the way it ends depend on the source and on the world
  (the blob and how it parses) only: two runs that differ in the timestamp and in the
  output directory write the same contents, in the same order. Their report directories
  under one output directory differ whenever their timestamps differ.
\<close>

theorem report_contents_deterministic:
  "contents (fst (main w t1 src out1)) = contents (fst (main w t2 src out2))
   \<and> snd (main w t1 src out1) = snd (main w t2 src out2)
   \<and> (relative t1 \<and> relative t2 \<and> t1 \<noteq> t2
        \<longrightarrow> os_path_join out1 t1 \<noteq> os_path_join out1 t2)"
  using main_contents [of w t1 src out1 t2 out2] os_path_join_inj [of t1 t2 out1] by blast

text \<open>
  Two runs on \<open>billing_example\<close> with different timestamps and output directories.
\<close>

theorem report_contents_deterministic_witness:
  "os_path_join ''out'' ''20240101T000000'' \<noteq> os_path_join ''out'' ''20240102T093000''
   \<and> contents (fst (main billing_world ''20240101T000000'' ''https://blob'' ''out''))
     = contents (fst (main billing_world ''20240102T093000'' ''https://blob'' ''reports''))
   \<and> snd (main billing_world ''20240101T000000'' ''https://blob'' ''out'') = None
   \<and> contents (fst (main billing_world ''20240101T000000'' ''https://blob'' ''out''))
     = [''raw'',
        ''SubscriptionName,CostInBillingCurrency\<newline>A,15.0\<newline>B,3.0\<newline>'',
        ''MeterCategory,CostInBillingCurrency\<newline>Compute,5.0\<newline>Storage,13.0\<newline>'',
        ''AccountName,CostInBillingCurrency\<newline>Contoso,8.0\<newline>Fabrikam,10.0\<newline>'',
        ''Month,CostInBillingCurrency\<newline>2024-01,15.0\<newline>2024-02,3.0\<newline>'']"
proof -
  have e: "contents (fst (main billing_world ''20240101T000000'' ''https://blob'' ''out''))
     = [''raw'',
        ''SubscriptionName,CostInBillingCurrency\<newline>A,15.0\<newline>B,3.0\<newline>'',
        ''MeterCategory,CostInBillingCurrency\<newline>Compute,5.0\<newline>Storage,13.0\<newline>'',
        ''AccountName,CostInBillingCurrency\<newline>Contoso,8.0\<newline>Fabrikam,10.0\<newline>'',
        ''Month,CostInBillingCurrency\<newline>2024-01,15.0\<newline>2024-02,3.0\<newline>'']"
    by code_simp
  have n: "snd (main billing_world ''20240101T000000'' ''https://blob'' ''out'') = None"
    by code_simp
  have r: "relative ''20240101T000000'' \<and> relative ''20240102T093000''
      \<and> ''20240101T000000'' \<noteq> ''20240102T093000''"
    by (simp add: relative_def)
  note d = report_contents_deterministic [of billing_world "''20240101T000000''" "''https://blob''"
      "''out''" "''20240102T093000''" "''reports''"]
  from d have c: "contents (fst (main billing_world ''20240101T000000'' ''https://blob'' ''out''))
     = contents (fst (main billing_world ''20240102T093000'' ''https://blob'' ''reports''))"
    by (rule conjunct1)
  from d [THEN conjunct2, THEN conjunct2] r
  have p: "os_path_join ''out'' ''20240101T000000'' \<noteq> os_path_join ''out'' ''20240102T093000''"
    by (rule mp)
  from p c n e show ?thesis by (intro conjI)
qed

text \<open>
  C8. Adding the temporal columns replaces the \<open>Date\<close> column of strings by the
  column of the parsed dates; \<open>Month\<close> and \<open>Year\<close> are set from the parsed dates and
  every other column stays as it was. The strings of \<open>Date\<close> are no longer in the
  table.
\<close>

theorem date_column_overwritten:
  assumes "get_col df0 ''Date'' = Inr (StrCol xs)"
    and "add_temporal_columns parse df0 = Inr df"
  shows "\<exists>ds. parse_all parse xs = Inr ds \<and> length ds = length xs \<and>
           map_of df = (map_of df0)
             (''Date'' \<mapsto> DatetimeCol ds,
              ''Month'' \<mapsto> PeriodMCol (map (map_option month_of) ds),
              ''Year'' \<mapsto> PeriodYCol (map (map_option year_of) ds)) \<and>
           get_col df ''Date'' = Inr (DatetimeCol ds) \<and>
           get_col df ''Date'' \<noteq> get_col df0 ''Date''"
proof -
  from assms(2) obtain dc ds where dc: "get_col df0 ''Date'' = Inr dc"
    and dt: "to_datetime parse dc = Inr (DatetimeCol ds)"
    and df: "df = set_col ''Year'' (PeriodYCol (map (map_option year_of) ds))
           (set_col ''Month'' (PeriodMCol (map (map_option month_of) ds))
              (set_col ''Date'' (DatetimeCol ds) df0))"
    by (rule add_temporal_columns_Inr)
  from dc dt assms(1) have p: "parse_all parse xs = Inr ds"
    by (auto simp: to_datetime_def bind_e_eq_Inr)
  then have l: "length ds = length xs" by (rule parse_all_length)
  have m: "map_of df = (map_of df0)
             (''Date'' \<mapsto> DatetimeCol ds,
              ''Month'' \<mapsto> PeriodMCol (map (map_option month_of) ds),
              ''Year'' \<mapsto> PeriodYCol (map (map_option year_of) ds))"
    by (simp add: df map_of_set_col)
  have g: "get_col df ''Date'' = Inr (DatetimeCol ds)"
    by (simp add: df get_col_set_col)
  from p l m g assms(1) show ?thesis by auto
qed

text \<open>
  The \<open>Date\<close> column of \<open>billing_example\<close> before and after.
\<close>

theorem date_column_overwritten_witness:
  "get_col billing_example ''Date''
      = Inr (StrCol [Some ''2024-02-01'', Some ''2024-01-15'', Some ''2024-01-01''])
   \<and> add_temporal_columns parse_iso8601 billing_example = Inr billing_example_derived
   \<and> get_col billing_example_derived ''Date''
      = Inr (DatetimeCol [Some (2024, 2, 1), Some (2024, 1, 15), Some (2024, 1, 1)])
   \<and> (\<exists>ds. parse_all parse_iso8601 [Some ''2024-02-01'', Some ''2024-01-15'', Some ''2024-01-01''] = Inr ds \<and>
           get_col billing_example_derived ''Date'' = Inr (DatetimeCol ds) \<and>
           get_col billing_example_derived ''Date'' \<noteq> get_col billing_example ''Date'')"
proof -
  have d: "get_col billing_example ''Date''
      = Inr (StrCol [Some ''2024-02-01'', Some ''2024-01-15'', Some ''2024-01-01''])"
    by code_simp
  have e: "get_col billing_example_derived ''Date''
      = Inr (DatetimeCol [Some (2024, 2, 1), Some (2024, 1, 15), Some (2024, 1, 1)])"
    by code_simp
  from date_column_overwritten [OF d billing_example_derive]
  have "\<exists>ds. parse_all parse_iso8601 [Some ''2024-02-01'', Some ''2024-01-15'', Some ''2024-01-01''] = Inr ds \<and>
           get_col billing_example_derived ''Date'' = Inr (DatetimeCol ds) \<and>
           get_col billing_example_derived ''Date'' \<noteq> get_col billing_example ''Date''"
    by blast
  with d e billing_example_derive show ?thesis by (intro conjI)
qed

text \<open>
  C9. Every generator writes its data rows in ascending order of the key: the report
  table has the distinct key values that are present, sorted, as its first column, and the
  file has its rows in that order.
\<close>

theorem report_rows_ascending:
  assumes "(key, gen) \<in> set generators"
    and "get_col df key = Inr kc"
    and "get_col df ''CostInBillingCurrency'' = Inr (FloatCol cs)"
  shows "report_frame df key =
           Inr [(key, unique_sorted kc), (''CostInBillingCurrency'', snd (sum_by kc cs))]
       \<and> gen df d f =
           Inr (os_path_join d f, report_text key (unique_sorted kc) (snd (sum_by kc cs)))"
proof -
  from assms(1) have k: "key \<noteq> ''CostInBillingCurrency''" by (rule generators_frame)
  have "report_frame df key =
           Inr [(key, unique_sorted kc), (''CostInBillingCurrency'', snd (sum_by kc cs))]"
    using report_frame_eq [OF assms(2,3) k] by (simp add: sum_by_labels)
  moreover have "gen df d f =
           Inr (os_path_join d f, report_text key (unique_sorted kc) (snd (sum_by kc cs)))"
    unfolding generators_frame(1) [OF assms(1)] using assms(2,3) k by (rule report_written)
  ultimately show ?thesis ..
qed

text \<open>
  The subscriptions of \<open>billing_example\<close> appear as B, A, A and are written as A, B.
\<close>

theorem report_rows_ascending_witness:
  "(''SubscriptionName'', cost_by_sub) \<in> set generators
   \<and> unique_sorted (StrCol [Some ''B'', Some ''A'', Some ''A'']) = StrCol [Some ''A'', Some ''B'']
   \<and> cost_by_sub billing_example_derived ''out'' ''cost_by_subscription.csv''
        = Inr (''out/cost_by_subscription.csv'',
               ''SubscriptionName,CostInBillingCurrency\<newline>A,15.0\<newline>B,3.0\<newline>'')"
proof -
  have g: "(''SubscriptionName'', cost_by_sub) \<in> set generators"
    by (simp add: generators_def)
  have k: "get_col billing_example_derived ''SubscriptionName'' = Inr (StrCol [Some ''B'', Some ''A'', Some ''A''])"
    by code_simp
  have c: "get_col billing_example_derived ''CostInBillingCurrency'' = Inr (FloatCol [Some 3, Some 5, Some 10])"
    by code_simp
  have u: "unique_sorted (StrCol [Some ''B'', Some ''A'', Some ''A'']) = StrCol [Some ''A'', Some ''B'']"
    by code_simp
  have p: "os_path_join ''out'' ''cost_by_subscription.csv'' = ''out/cost_by_subscription.csv''"
    by code_simp
  have r: "report_text ''SubscriptionName'' (StrCol [Some ''A'', Some ''B''])
             (snd (sum_by (StrCol [Some ''B'', Some ''A'', Some ''A'']) [Some 3, Some 5, Some 10]))
         = ''SubscriptionName,CostInBillingCurrency\<newline>A,15.0\<newline>B,3.0\<newline>''"
    by code_simp
  from report_rows_ascending [OF g k c, of "''out''" "''cost_by_subscription.csv''"]
  have "cost_by_sub billing_example_derived ''out'' ''cost_by_subscription.csv''
        = Inr (''out/cost_by_subscription.csv'',
               ''SubscriptionName,CostInBillingCurrency\<newline>A,15.0\<newline>B,3.0\<newline>'')"
    unfolding u p r by (rule conjunct2)
  with g u show ?thesis by (intro conjI)
qed

text \<open>
  C10. For every generator on the table \<open>main\<close> derives from a well-formed billing
  table, the rows whose key is missing do not count. The file it writes is the CSV of its
  report table, and it writes the same file on the table without these rows. The groups of
  the report table are the key values that are present, so the missing key forms no group,
  and its cost column sums to the costs of exactly the rows whose key is present. Which
  rows count in a report depends on that report's key only: a row that misses another key
  still counts.
\<close>

theorem missing_key_rows_excluded:
  assumes "billing_table df0" and "add_temporal_columns parse df0 = Inr df"
    and "get_col df0 ''CostInBillingCurrency'' = Inr cc"
    and "(key, gen) \<in> set generators" and "get_col df key = Inr kc"
  shows "\<exists>a. report_frame df key = Inr a
           \<and> gen df d f = Inr (os_path_join d f, to_csv a False)
           \<and> gen (mask_rows (notna kc) df) d f = Inr (os_path_join d f, to_csv a False)
           \<and> map fst a = [key, ''CostInBillingCurrency'']
           \<and> get_col a key = Inr (unique_sorted kc)
           \<and> col_sum a ''CostInBillingCurrency''
               = col_sum (mask_rows (notna kc) df) ''CostInBillingCurrency''"
proof -
  from assms(1) have "same_len df0" by (simp add: billing_table_def)
  then have s: "same_len df" using assms(2) by (rule derived_same_len)
  from assms(4) have k: "key \<noteq> ''CostInBillingCurrency''" by (rule generators_frame)
  from assms(1,3) obtain cs where cs: "cc = FloatCol cs"
    using billing_table_cost by blast
  have cost: "get_col df ''CostInBillingCurrency'' = Inr (FloatCol cs)"
    using derived_other_cols [OF assms(2), of "''CostInBillingCurrency''"] assms(3) cs by simp
  let ?a = "[(key, unique_sorted kc), (''CostInBillingCurrency'', snd (sum_by kc cs))]"
  have "report_frame df key
      = Inr [(key, fst (sum_by kc cs)), (''CostInBillingCurrency'', snd (sum_by kc cs))]"
    using assms(5) cost k by (rule report_frame_eq)
  then have 1: "report_frame df key = Inr ?a"
    unfolding sum_by_labels .
  have 2: "gen df d f = Inr (os_path_join d f, to_csv ?a False)"
    unfolding generators_frame(1) [OF assms(4)] 1 by simp
  have 3: "gen (mask_rows (notna kc) df) d f = Inr (os_path_join d f, to_csv ?a False)"
    unfolding generators_frame(1) [OF assms(4)] report_frame_mask [OF s assms(5)] 1 by simp
  have 4: "map fst ?a = [key, ''CostInBillingCurrency'']" by simp
  have 5: "get_col ?a key = Inr (unique_sorted kc)"
    by (simp add: get_col_def)
  have "report_total df key = col_sum (mask_rows (notna kc) df) ''CostInBillingCurrency''"
    using s assms(5) k by (rule report_total_mask)
  then have 6: "col_sum ?a ''CostInBillingCurrency''
      = col_sum (mask_rows (notna kc) df) ''CostInBillingCurrency''"
    unfolding report_total_def 1 by simp
  from 1 2 3 4 5 6 show ?thesis by (intro exI [of _ ?a] conjI)
qed

text \<open>
  In \<open>missing_account_example\<close> the row without an account is left out of the account
  report, which sums to 13, and is counted in the subscription report, where it is part
  of the 15 of subscription A.
\<close>

theorem missing_key_rows_excluded_witness:
  "billing_table missing_account_example
   \<and> add_temporal_columns parse_iso8601 missing_account_example = Inr missing_account_derived
   \<and> (''AccountName'', cost_by_account) \<in> set generators
   \<and> get_col missing_account_derived ''AccountName''
        = Inr (StrCol [Some ''Contoso'', None, Some ''Fabrikam''])
   \<and> (\<exists>a. report_frame missing_account_derived ''AccountName'' = Inr a
          \<and> cost_by_account missing_account_derived ''out'' ''cost_by_account.csv''
              = Inr (os_path_join ''out'' ''cost_by_account.csv'', to_csv a False)
          \<and> cost_by_account
                (mask_rows (notna (StrCol [Some ''Contoso'', None, Some ''Fabrikam'']))
                   missing_account_derived) ''out'' ''cost_by_account.csv''
              = Inr (os_path_join ''out'' ''cost_by_account.csv'', to_csv a False)
          \<and> map fst a = [''AccountName'', ''CostInBillingCurrency'']
          \<and> get_col a ''AccountName''
              = Inr (unique_sorted (StrCol [Some ''Contoso'', None, Some ''Fabrikam'']))
          \<and> col_sum a ''CostInBillingCurrency'' = Inr 13)
   \<and> cost_by_account missing_account_derived ''out'' ''cost_by_account.csv''
        = Inr (''out/cost_by_account.csv'',
               ''AccountName,CostInBillingCurrency\<newline>Contoso,3.0\<newline>Fabrikam,10.0\<newline>'')
   \<and> cost_by_sub missing_account_derived ''out'' ''cost_by_subscription.csv''
        = Inr (''out/cost_by_subscription.csv'',
               ''SubscriptionName,CostInBillingCurrency\<newline>A,15.0\<newline>B,3.0\<newline>'')"
proof -
  have g: "(''AccountName'', cost_by_account) \<in> set generators"
    by (simp add: generators_def)
  have cc: "get_col missing_account_example ''CostInBillingCurrency''
        = Inr (FloatCol [Some 3, Some 5, Some 10])"
    by code_simp
  have c: "get_col missing_account_derived ''AccountName''
        = Inr (StrCol [Some ''Contoso'', None, Some ''Fabrikam''])"
    by code_simp
  have t: "col_sum (mask_rows (notna (StrCol [Some ''Contoso'', None, Some ''Fabrikam'']))
             missing_account_derived) ''CostInBillingCurrency'' = Inr 13"
    by code_simp
  have e1: "cost_by_account missing_account_derived ''out'' ''cost_by_account.csv''
        = Inr (''out/cost_by_account.csv'',
               ''AccountName,CostInBillingCurrency\<newline>Contoso,3.0\<newline>Fabrikam,10.0\<newline>'')"
    by code_simp
  have e2: "cost_by_sub missing_account_derived ''out'' ''cost_by_subscription.csv''
        = Inr (''out/cost_by_subscription.csv'',
               ''SubscriptionName,CostInBillingCurrency\<newline>A,15.0\<newline>B,3.0\<newline>'')"
    by code_simp
  have x: "\<exists>a. report_frame missing_account_derived ''AccountName'' = Inr a
          \<and> cost_by_account missing_account_derived ''out'' ''cost_by_account.csv''
              = Inr (os_path_join ''out'' ''cost_by_account.csv'', to_csv a False)
          \<and> cost_by_account
                (mask_rows (notna (StrCol [Some ''Contoso'', None, Some ''Fabrikam'']))
                   missing_account_derived) ''out'' ''cost_by_account.csv''
              = Inr (os_path_join ''out'' ''cost_by_account.csv'', to_csv a False)
          \<and> map fst a = [''AccountName'', ''CostInBillingCurrency'']
          \<and> get_col a ''AccountName''
              = Inr (unique_sorted (StrCol [Some ''Contoso'', None, Some ''Fabrikam'']))
          \<and> col_sum a ''CostInBillingCurrency'' = Inr 13"
    using missing_key_rows_excluded [OF missing_account_ok missing_account_derive cc g c,
        of "''out''" "''cost_by_account.csv''"]
    unfolding t .
  from missing_account_ok missing_account_derive g c x e1 e2
  show ?thesis by (intro conjI)
qed

end
